theory Spec2Isabelle
  imports Complex_Main "HOL-Library.Log_Nat" "HOL-Library.Word"
begin

section \<open>Single-precision arithmetic used by the attribute encoder\<close>

text \<open>
  A C++ \<^verbatim>\<open>float\<close> is modelled by the real number it denotes. Every finite binary32
  number is an integer multiple of \<open>2 ^ -149\<close> with a significand of at most 24 bits;
  \<open>round32\<close> rounds a real number to the nearest such number, ties to the even
  significand (the default rounding mode). A result of magnitude \<open>2 ^ 128\<close> or more
  stands for an infinity; the encoder only ever converts its products to \<^verbatim>\<open>uint16_t\<close>,
  where such a value is out of range like every other value above 65535.
\<close>

type_synonym float = real

definition round_nearest_even :: "real \<Rightarrow> int" where
  "round_nearest_even y =
     (let f = \<lfloor>y\<rfloor>; d = y - of_int f
      in if d < 1 / 2 then f else if 1 / 2 < d then f + 1 else if even f then f else f + 1)"

definition round32 :: "real \<Rightarrow> float" where
  "round32 x =
     (let y = \<bar>x\<bar> * 2 ^ 149;
          q = 2 ^ nat (bitlen \<lfloor>y\<rfloor> - 24);
          n = round_nearest_even (y / of_int q)
      in sgn x * of_int (n * q) / 2 ^ 149)"

text \<open>The product of two floats, \<^verbatim>\<open>a * b\<close>.\<close>

definition fmul :: "float \<Rightarrow> float \<Rightarrow> float" where
  "fmul a b = round32 (a * b)"

text \<open>
  A real number is a binary32 number exactly when rounding leaves it as it is. A colour
  component is such a number between 0 and 1.
\<close>

definition unit_float :: "real \<Rightarrow> bool" where
  "unit_float x \<longleftrightarrow> round32 x = x \<and> 0 \<le> x \<and> x \<le> 1"

datatype error =
    UndefinedConversion   \<comment> \<open>float to integer conversion whose truncated value does not fit\<close>
  | EmptyOptional         \<comment> \<open>\<^verbatim>\<open>*opt\<close> on a disengaged optional\<close>
  | UploadFailed          \<comment> \<open>the graphics context could not create the buffer\<close>

text \<open>
  \<^verbatim>\<open>static_cast<uint16_t>(x)\<close> for a float \<open>x\<close>: the value is truncated towards zero; the
  behaviour is undefined when the truncated value is not a \<^verbatim>\<open>uint16_t\<close>.
\<close>

definition float_to_uint16 :: "float \<Rightarrow> error + 16 word" where
  "float_to_uint16 x =
     (let t = (if 0 \<le> x then \<lfloor>x\<rfloor> else \<lceil>x\<rceil>)
      in if 0 \<le> t \<and> t \<le> 65535 then Inr (word_of_int t) else Inl UndefinedConversion)"

text \<open>\<^verbatim>\<open>static_cast<float>(n)\<close> for an \<^verbatim>\<open>int\<close> \<open>n\<close>.\<close>

definition int_to_float :: "int \<Rightarrow> float" where
  "int_to_float n = round32 (of_int n)"

section \<open>Attribute encoder\<close>

record Color =
  r :: float
  g :: float
  b :: float
  a :: float

text \<open>\<^verbatim>\<open>attributeValue(float v)\<close>: a one-element array.\<close>

definition attributeValue_float :: "float \<Rightarrow> float list" where
  "attributeValue_float v = [v]"

text \<open>
  \<^verbatim>\<open>attributeValue(const Color&)\<close>. Each component is multiplied by 255 in \<^verbatim>\<open>float\<close> and
  converted to \<^verbatim>\<open>uint16_t\<close>; the two \<^verbatim>\<open>uint16_t\<close> operands of \<^verbatim>\<open>* 256 +\<close> are promoted to
  \<^verbatim>\<open>int\<close>, where \<open>65535 * 256 + 65535\<close> does not overflow; the sum is converted to
  \<^verbatim>\<open>float\<close>.
\<close>

definition attributeValue_Color :: "Color \<Rightarrow> error + float list" where
  "attributeValue_Color color =
     (case float_to_uint16 (fmul (r color) 255) of Inl e \<Rightarrow> Inl e | Inr r16 \<Rightarrow>
     (case float_to_uint16 (fmul (g color) 255) of Inl e \<Rightarrow> Inl e | Inr g16 \<Rightarrow>
     (case float_to_uint16 (fmul (b color) 255) of Inl e \<Rightarrow> Inl e | Inr b16 \<Rightarrow>
     (case float_to_uint16 (fmul (a color) 255) of Inl e \<Rightarrow> Inl e | Inr a16 \<Rightarrow>
        Inr [int_to_float (uint r16 * 256 + uint g16),
             int_to_float (uint b16 * 256 + uint a16)]))))"

text \<open>
  The property type \<^verbatim>\<open>T\<close> of a binder is \<^verbatim>\<open>float\<close> or \<^verbatim>\<open>Color\<close>; overload resolution
  picks the encoder by the type.
\<close>

datatype Value = Scalar float | Colour Color

fun attributeValue :: "Value \<Rightarrow> error + float list" where
  "attributeValue (Scalar v) = Inr (attributeValue_float v)"
| "attributeValue (Colour c) = attributeValue_Color c"

text \<open>
  \<^verbatim>\<open>zoomInterpolatedAttributeValue<N>(min, max)\<close>: the loop writes \<^verbatim>\<open>result[i]\<close> and
  \<^verbatim>\<open>result[i+N]\<close> for \<open>i < N\<close>. Both arguments have \<open>N\<close> elements by their type; the
  result array starts out uninitialised and every cell is written.
\<close>

function zoomInterpolated_loop ::
  "nat \<Rightarrow> nat \<Rightarrow> float list \<Rightarrow> float list \<Rightarrow> float list \<Rightarrow> float list" where
  "zoomInterpolated_loop i N mn mx result =
     (if i < N
      then zoomInterpolated_loop (Suc i) N mn mx (result[i := mn ! i, i + N := mx ! i])
      else result)"
  by pat_completeness auto
termination
  by (relation "measure (\<lambda>(i, N, mn, mx, result). N - i)") auto

declare zoomInterpolated_loop.simps [simp del]

definition zoomInterpolatedAttributeValue :: "float list \<Rightarrow> float list \<Rightarrow> float list" where
  "zoomInterpolatedAttributeValue mn mx =
     (let N = length mn in zoomInterpolated_loop 0 N mn mx (replicate (N * 2) 0))"

text \<open>
  The two halves of a doubled-width attribute value: the first \<open>N\<close> channels are the
  "min" value, the last \<open>N\<close> the "max" value.
\<close>

definition min_half :: "float list \<Rightarrow> float list" where
  "min_half v = take (length v div 2) v"

definition max_half :: "float list \<Rightarrow> float list" where
  "max_half v = drop (length v div 2) v"

text \<open>
  Modelled from the spec: the shader that unpacks a colour is not part of the sources.
  It takes \<open>floor (f / 256)\<close> as the high component of a packed float \<open>f\<close> and
  \<open>f mod 256\<close> as the low one.
\<close>

definition decode_high :: "float \<Rightarrow> float" where
  "decode_high f = of_int \<lfloor>f / 256\<rfloor>"

definition decode_low :: "float \<Rightarrow> float" where
  "decode_low f = f - 256 * of_int \<lfloor>f / 256\<rfloor>"

section \<open>Collaborators of the binders\<close>

text \<open>\<^verbatim>\<open>Range<T>\<close>: a pair of a lower and an upper value.\<close>

record 'a Range =
  range_min :: 'a
  range_max :: 'a

text \<open>
  Modelled from the spec: \<^verbatim>\<open>util::interpolationFactor\<close> is declared in a header that is
  not part of the sources. The factor is linear for base 1 and exponential otherwise;
  it is not clamped. Its arithmetic is that of the spec's formulas, over the reals.
\<close>

definition util_interpolationFactor :: "float \<Rightarrow> float Range \<Rightarrow> float \<Rightarrow> float" where
  "util_interpolationFactor base bracket currentZoom =
     (if base = 1
      then (currentZoom - range_min bracket) / (range_max bracket - range_min bracket)
      else (base powr (currentZoom - range_min bracket) - 1)
           / (base powr (range_max bracket - range_min bracket) - 1))"

text \<open>
  Modelled from the spec: \<^verbatim>\<open>SourceFunction<T>\<close> is declared elsewhere. It looks the
  feature's data up, which may be missing; \<^verbatim>\<open>evaluate\<close> then falls back to the default
  value it is given.
\<close>

type_synonym 'f SourceFunction = "'f \<Rightarrow> Value option"

definition SourceFunction_evaluate :: "'f SourceFunction \<Rightarrow> 'f \<Rightarrow> Value \<Rightarrow> Value" where
  "SourceFunction_evaluate fn feature defaultValue =
     (case fn feature of Some v \<Rightarrow> v | None \<Rightarrow> defaultValue)"

text \<open>
  Modelled from the spec: \<^verbatim>\<open>CompositeFunction<T>\<close> is declared elsewhere. It carries its
  declared interpolation base, computes the covering ranges (the zoom bracket and the
  bracket of inner stops) for a zoom, and evaluates a feature over a bracket of inner
  stops to a range of values. The two operations are taken as given.
\<close>

record ('f, 'stops) CompositeFunction =
  base :: float
  coveringRanges :: "float \<Rightarrow> float Range \<times> 'stops Range"
  evaluate :: "'stops Range \<Rightarrow> 'f \<Rightarrow> Value \<Rightarrow> Value Range"

text \<open>
  \<^verbatim>\<open>PossiblyEvaluatedPropertyValue<T>\<close>, a variant over the three kinds of value, with
  its accessors \<^verbatim>\<open>isConstant()\<close>, \<^verbatim>\<open>constant()\<close> (an optional) and \<^verbatim>\<open>constantOr(t)\<close>.
\<close>

datatype ('f, 'stops) PossiblyEvaluatedPropertyValue =
    Constant Value
  | Source "'f SourceFunction"
  | Composite "('f, 'stops) CompositeFunction"

fun isConstant :: "('f, 'stops) PossiblyEvaluatedPropertyValue \<Rightarrow> bool" where
  "isConstant (Constant c) = True"
| "isConstant (Source fn) = False"
| "isConstant (Composite fn) = False"

fun "constant" :: "('f, 'stops) PossiblyEvaluatedPropertyValue \<Rightarrow> Value option" where
  "constant (Constant c) = Some c"
| "constant (Source fn) = None"
| "constant (Composite fn) = None"

definition constantOr :: "('f, 'stops) PossiblyEvaluatedPropertyValue \<Rightarrow> Value \<Rightarrow> Value" where
  "constantOr v t = (case constant v of Some c \<Rightarrow> c | None \<Rightarrow> t)"

text \<open>
  The \<^verbatim>\<open>Statistics\<close> template parameter: any type \<open>'s\<close> with an \<^verbatim>\<open>add\<close> for a value and an
  \<^verbatim>\<open>add\<close> for a range of values.
\<close>

record 's Statistics =
  add_value :: "Value \<Rightarrow> 's \<Rightarrow> 's"
  add_range :: "Value Range \<Rightarrow> 's \<Rightarrow> 's"

text \<open>
  \<^verbatim>\<open>gl::Context::createVertexBuffer\<close> takes the vertex vector by rvalue reference. It
  either fails or returns the handle of the new buffer; what it leaves behind in the
  vector it was given is its own affair, so the model lets it return that too.
\<close>

record 'buf Context =
  createVertexBuffer :: "float list list \<Rightarrow> ('buf \<times> float list list) option"

text \<open>
  \<^verbatim>\<open>Attribute::Binding\<close>: a constant binding holding the attribute value, or a variable
  binding made by \<^verbatim>\<open>variableBinding(buffer, attributeIndex, attributeSize)\<close>.
\<close>

datatype 'buf AttributeBinding =
    ConstantBinding "float list"
  | VariableBinding 'buf nat nat

text \<open>
  The loop \<^verbatim>\<open>for (i = vertexVector.vertexSize(); i < length; ++i) emplace_back(value)\<close>
  of both \<^verbatim>\<open>populateVertexVector\<close> bodies, started at \<open>i\<close>. The counter is a
  \<^verbatim>\<open>size_t\<close> that stays below \<^verbatim>\<open>length\<close>, so it never wraps.
\<close>

function emplace_loop :: "nat \<Rightarrow> nat \<Rightarrow> 'v \<Rightarrow> 'v list \<Rightarrow> 'v list" where
  "emplace_loop i len v vertexVector =
     (if i < len then emplace_loop (Suc i) len v (vertexVector @ [v]) else vertexVector)"
  by pat_completeness auto
termination
  by (relation "measure (\<lambda>(i, len, v, vertexVector). len - i)") auto

declare emplace_loop.simps [simp del]

section \<open>Binder strategies\<close>

subsection \<open>Constant binder\<close>

record ConstantPaintPropertyBinder =
  const_constant :: Value

definition Constant_populateVertexVector ::
  "'s Statistics \<Rightarrow> ConstantPaintPropertyBinder \<Rightarrow> 'f \<Rightarrow> nat \<Rightarrow> 's
     \<Rightarrow> error + ConstantPaintPropertyBinder \<times> 's" where
  "Constant_populateVertexVector ops binder feature len statistics = Inr (binder, statistics)"

definition Constant_upload ::
  "'buf Context \<Rightarrow> ConstantPaintPropertyBinder \<Rightarrow> error + ConstantPaintPropertyBinder" where
  "Constant_upload context binder = Inr binder"

definition Constant_attributeBinding ::
  "ConstantPaintPropertyBinder \<Rightarrow> ('f, 'stops) PossiblyEvaluatedPropertyValue
     \<Rightarrow> error + 'buf AttributeBinding" where
  "Constant_attributeBinding binder currentValue =
     (case attributeValue (constantOr currentValue (const_constant binder)) of
        Inl e \<Rightarrow> Inl e
      | Inr v \<Rightarrow> Inr (ConstantBinding (zoomInterpolatedAttributeValue v v)))"

definition Constant_interpolationFactor :: "ConstantPaintPropertyBinder \<Rightarrow> float \<Rightarrow> float" where
  "Constant_interpolationFactor binder currentZoom = 0"

subsection \<open>Source-function binder\<close>

text \<open>
  \<open>src_dimensions\<close> is \<^verbatim>\<open>BaseAttribute::Dimensions\<close>, a constant of the template argument
  \<^verbatim>\<open>A\<close>. \<open>src_evaluated\<close> is not a member of the class: it lists the features on which
  \<^verbatim>\<open>function.evaluate\<close> has been called, oldest first, so that the number of evaluations
  is visible in the state.
\<close>

record ('f, 'buf) SourceFunctionPaintPropertyBinder =
  src_function :: "'f SourceFunction"
  src_defaultValue :: Value
  src_vertexVector :: "float list list"
  src_vertexBuffer :: "'buf option"
  src_dimensions :: nat
  src_evaluated :: "'f list"

definition Source_populateVertexVector ::
  "'s Statistics \<Rightarrow> ('f, 'buf) SourceFunctionPaintPropertyBinder \<Rightarrow> 'f \<Rightarrow> nat \<Rightarrow> 's
     \<Rightarrow> error + ('f, 'buf) SourceFunctionPaintPropertyBinder \<times> 's" where
  "Source_populateVertexVector ops binder feature len statistics =
     (let evaluated = SourceFunction_evaluate (src_function binder) feature (src_defaultValue binder);
          binder1 = binder\<lparr>src_evaluated := src_evaluated binder @ [feature]\<rparr>;
          statistics1 = add_value ops evaluated statistics
      in case attributeValue evaluated of
           Inl e \<Rightarrow> Inl e
         | Inr v \<Rightarrow>
             Inr (binder1\<lparr>src_vertexVector :=
                    emplace_loop (length (src_vertexVector binder1)) len v (src_vertexVector binder1)\<rparr>,
                  statistics1))"

definition Source_upload ::
  "'buf Context \<Rightarrow> ('f, 'buf) SourceFunctionPaintPropertyBinder
     \<Rightarrow> error + ('f, 'buf) SourceFunctionPaintPropertyBinder" where
  "Source_upload context binder =
     (case createVertexBuffer context (src_vertexVector binder) of
        None \<Rightarrow> Inl UploadFailed
      | Some (buffer, rest) \<Rightarrow>
          Inr (binder\<lparr>src_vertexVector := rest, src_vertexBuffer := Some buffer\<rparr>))"

definition Source_attributeBinding ::
  "('f, 'buf) SourceFunctionPaintPropertyBinder \<Rightarrow> ('f, 'stops) PossiblyEvaluatedPropertyValue
     \<Rightarrow> error + 'buf AttributeBinding" where
  "Source_attributeBinding binder currentValue =
     (if isConstant currentValue
      then (case constant currentValue of
              None \<Rightarrow> Inl EmptyOptional
            | Some c \<Rightarrow>
               (case attributeValue c of
                  Inl e \<Rightarrow> Inl e
                | Inr v \<Rightarrow> Inr (ConstantBinding (zoomInterpolatedAttributeValue v v))))
      else (case src_vertexBuffer binder of
              None \<Rightarrow> Inl EmptyOptional
            | Some buffer \<Rightarrow> Inr (VariableBinding buffer 0 (src_dimensions binder))))"

definition Source_interpolationFactor ::
  "('f, 'buf) SourceFunctionPaintPropertyBinder \<Rightarrow> float \<Rightarrow> float" where
  "Source_interpolationFactor binder currentZoom = 0"

subsection \<open>Composite-function binder\<close>

text \<open>
  \<open>cmp_dimensions\<close> and \<open>cmp_evaluated\<close> are as for the source-function binder. The
  member \<^verbatim>\<open>coveringRanges\<close> is initialised by the constructor and \<^verbatim>\<open>std::get<0>\<close>,
  \<^verbatim>\<open>std::get<1>\<close> read its two components.
\<close>

record ('f, 'stops, 'buf) CompositeFunctionPaintPropertyBinder =
  cmp_function :: "('f, 'stops) CompositeFunction"
  cmp_defaultValue :: Value
  cmp_coveringRanges :: "float Range \<times> 'stops Range"
  cmp_vertexVector :: "float list list"
  cmp_vertexBuffer :: "'buf option"
  cmp_dimensions :: nat
  cmp_evaluated :: "'f list"

definition Composite_populateVertexVector ::
  "'s Statistics \<Rightarrow> ('f, 'stops, 'buf) CompositeFunctionPaintPropertyBinder \<Rightarrow> 'f \<Rightarrow> nat \<Rightarrow> 's
     \<Rightarrow> error + ('f, 'stops, 'buf) CompositeFunctionPaintPropertyBinder \<times> 's" where
  "Composite_populateVertexVector ops binder feature len statistics =
     (let range = evaluate (cmp_function binder) (snd (cmp_coveringRanges binder)) feature
                    (cmp_defaultValue binder);
          binder1 = binder\<lparr>cmp_evaluated := cmp_evaluated binder @ [feature]\<rparr>;
          statistics1 = add_range ops range statistics
      in case attributeValue (range_min range) of
           Inl e \<Rightarrow> Inl e
         | Inr vmin \<Rightarrow>
            (case attributeValue (range_max range) of
               Inl e \<Rightarrow> Inl e
             | Inr vmax \<Rightarrow>
                (let v = zoomInterpolatedAttributeValue vmin vmax
                 in Inr (binder1\<lparr>cmp_vertexVector :=
                           emplace_loop (length (cmp_vertexVector binder1)) len v
                             (cmp_vertexVector binder1)\<rparr>,
                         statistics1))))"

definition Composite_upload ::
  "'buf Context \<Rightarrow> ('f, 'stops, 'buf) CompositeFunctionPaintPropertyBinder
     \<Rightarrow> error + ('f, 'stops, 'buf) CompositeFunctionPaintPropertyBinder" where
  "Composite_upload context binder =
     (case createVertexBuffer context (cmp_vertexVector binder) of
        None \<Rightarrow> Inl UploadFailed
      | Some (buffer, rest) \<Rightarrow>
          Inr (binder\<lparr>cmp_vertexVector := rest, cmp_vertexBuffer := Some buffer\<rparr>))"

text \<open>
  The variable binding of the composite binder leaves the attribute size to the default
  of \<^verbatim>\<open>variableBinding\<close>, the full width of the zoom-interpolated attribute, twice the
  base dimensions.
\<close>

definition Composite_attributeBinding ::
  "('f, 'stops, 'buf) CompositeFunctionPaintPropertyBinder
     \<Rightarrow> ('f, 'stops) PossiblyEvaluatedPropertyValue \<Rightarrow> error + 'buf AttributeBinding" where
  "Composite_attributeBinding binder currentValue =
     (if isConstant currentValue
      then (case constant currentValue of
              None \<Rightarrow> Inl EmptyOptional
            | Some c \<Rightarrow>
               (case attributeValue c of
                  Inl e \<Rightarrow> Inl e
                | Inr v \<Rightarrow> Inr (ConstantBinding (zoomInterpolatedAttributeValue v v))))
      else (case cmp_vertexBuffer binder of
              None \<Rightarrow> Inl EmptyOptional
            | Some buffer \<Rightarrow> Inr (VariableBinding buffer 0 (cmp_dimensions binder * 2))))"

definition Composite_interpolationFactor ::
  "('f, 'stops, 'buf) CompositeFunctionPaintPropertyBinder \<Rightarrow> float \<Rightarrow> float" where
  "Composite_interpolationFactor binder currentZoom =
     util_interpolationFactor 1 (fst (cmp_coveringRanges binder)) currentZoom"

subsection \<open>The binder interface\<close>

text \<open>
  A \<^verbatim>\<open>PaintPropertyBinder\<close> is one of the three concrete classes; the virtual member
  functions dispatch on the class. \<^verbatim>\<open>create\<close> selects the class by the kind of the
  evaluated value; the dimensions of the attribute type \<^verbatim>\<open>A\<close> come with the template
  arguments.
\<close>

datatype ('f, 'stops, 'buf) PaintPropertyBinder =
    ConstantBinder ConstantPaintPropertyBinder
  | SourceBinder "('f, 'buf) SourceFunctionPaintPropertyBinder"
  | CompositeBinder "('f, 'stops, 'buf) CompositeFunctionPaintPropertyBinder"

fun create ::
  "nat \<Rightarrow> ('f, 'stops) PossiblyEvaluatedPropertyValue \<Rightarrow> float \<Rightarrow> Value
     \<Rightarrow> ('f, 'stops, 'buf) PaintPropertyBinder" where
  "create dimensions (Constant c) zoom defaultValue =
     ConstantBinder \<lparr>const_constant = c\<rparr>"
| "create dimensions (Source fn) zoom defaultValue =
     SourceBinder \<lparr>src_function = fn, src_defaultValue = defaultValue, src_vertexVector = [],
       src_vertexBuffer = None, src_dimensions = dimensions, src_evaluated = []\<rparr>"
| "create dimensions (Composite fn) zoom defaultValue =
     CompositeBinder \<lparr>cmp_function = fn, cmp_defaultValue = defaultValue,
       cmp_coveringRanges = coveringRanges fn zoom, cmp_vertexVector = [],
       cmp_vertexBuffer = None, cmp_dimensions = dimensions, cmp_evaluated = []\<rparr>"

fun populateVertexVector ::
  "'s Statistics \<Rightarrow> ('f, 'stops, 'buf) PaintPropertyBinder \<Rightarrow> 'f \<Rightarrow> nat \<Rightarrow> 's
     \<Rightarrow> error + ('f, 'stops, 'buf) PaintPropertyBinder \<times> 's" where
  "populateVertexVector ops (ConstantBinder c) feature len statistics =
     map_sum id (map_prod ConstantBinder id) (Constant_populateVertexVector ops c feature len statistics)"
| "populateVertexVector ops (SourceBinder s) feature len statistics =
     map_sum id (map_prod SourceBinder id) (Source_populateVertexVector ops s feature len statistics)"
| "populateVertexVector ops (CompositeBinder c) feature len statistics =
     map_sum id (map_prod CompositeBinder id) (Composite_populateVertexVector ops c feature len statistics)"

fun upload ::
  "'buf Context \<Rightarrow> ('f, 'stops, 'buf) PaintPropertyBinder
     \<Rightarrow> error + ('f, 'stops, 'buf) PaintPropertyBinder" where
  "upload context (ConstantBinder c) = map_sum id ConstantBinder (Constant_upload context c)"
| "upload context (SourceBinder s) = map_sum id SourceBinder (Source_upload context s)"
| "upload context (CompositeBinder c) = map_sum id CompositeBinder (Composite_upload context c)"

fun attributeBinding ::
  "('f, 'stops, 'buf) PaintPropertyBinder \<Rightarrow> ('f, 'stops) PossiblyEvaluatedPropertyValue
     \<Rightarrow> error + 'buf AttributeBinding" where
  "attributeBinding (ConstantBinder c) currentValue = Constant_attributeBinding c currentValue"
| "attributeBinding (SourceBinder s) currentValue = Source_attributeBinding s currentValue"
| "attributeBinding (CompositeBinder c) currentValue = Composite_attributeBinding c currentValue"

fun interpolationFactor :: "('f, 'stops, 'buf) PaintPropertyBinder \<Rightarrow> float \<Rightarrow> float" where
  "interpolationFactor (ConstantBinder c) currentZoom = Constant_interpolationFactor c currentZoom"
| "interpolationFactor (SourceBinder s) currentZoom = Source_interpolationFactor s currentZoom"
| "interpolationFactor (CompositeBinder c) currentZoom = Composite_interpolationFactor c currentZoom"

text \<open>The members a binder exposes to the properties below.\<close>

fun vertexVector :: "('f, 'stops, 'buf) PaintPropertyBinder \<Rightarrow> float list list" where
  "vertexVector (ConstantBinder c) = []"
| "vertexVector (SourceBinder s) = src_vertexVector s"
| "vertexVector (CompositeBinder c) = cmp_vertexVector c"

fun vertexBuffer :: "('f, 'stops, 'buf) PaintPropertyBinder \<Rightarrow> 'buf option" where
  "vertexBuffer (ConstantBinder c) = None"
| "vertexBuffer (SourceBinder s) = src_vertexBuffer s"
| "vertexBuffer (CompositeBinder c) = cmp_vertexBuffer c"

fun isConstantBinder :: "('f, 'stops, 'buf) PaintPropertyBinder \<Rightarrow> bool" where
  "isConstantBinder (ConstantBinder c) = True"
| "isConstantBinder (SourceBinder s) = False"
| "isConstantBinder (CompositeBinder c) = False"

text \<open>
  A binder encodes a feature when the value, or the range of values, that
  \<^verbatim>\<open>populateVertexVector\<close> evaluates for the feature has a defined encoding, that is when
  none of the conversions to \<^verbatim>\<open>uint16_t\<close> in \<^verbatim>\<open>attributeValue\<close> is out of range. Scalars and
  colours with components in the unit interval always do.
\<close>

fun encodes :: "('f, 'stops, 'buf) PaintPropertyBinder \<Rightarrow> 'f \<Rightarrow> bool" where
  "encodes (ConstantBinder c) feature = True"
| "encodes (SourceBinder s) feature =
     (\<not> isl (attributeValue
        (SourceFunction_evaluate (src_function s) feature (src_defaultValue s))))"
| "encodes (CompositeBinder c) feature =
     (\<not> isl (attributeValue (range_min
        (evaluate (cmp_function c) (snd (cmp_coveringRanges c)) feature (cmp_defaultValue c))))
      \<and> \<not> isl (attributeValue (range_max
        (evaluate (cmp_function c) (snd (cmp_coveringRanges c)) feature (cmp_defaultValue c)))))"

subsection \<open>Sequences of calls on one binder\<close>

text \<open>
  A caller drives a binder through calls of \<^verbatim>\<open>populateVertexVector\<close> and \<^verbatim>\<open>upload\<close>; a
  sequence of calls stops at the first one that fails.
\<close>

datatype 'f Call = PopulateVertexVector 'f nat | Upload

fun perform ::
  "'s Statistics \<Rightarrow> 'buf Context \<Rightarrow> ('f, 'stops, 'buf) PaintPropertyBinder \<times> 's \<Rightarrow> 'f Call
     \<Rightarrow> error + ('f, 'stops, 'buf) PaintPropertyBinder \<times> 's" where
  "perform ops context (binder, statistics) (PopulateVertexVector feature len) =
     populateVertexVector ops binder feature len statistics"
| "perform ops context (binder, statistics) Upload =
     map_sum id (\<lambda>binder'. (binder', statistics)) (upload context binder)"

fun perform_all ::
  "'s Statistics \<Rightarrow> 'buf Context \<Rightarrow> ('f, 'stops, 'buf) PaintPropertyBinder \<times> 's \<Rightarrow> 'f Call list
     \<Rightarrow> error + ('f, 'stops, 'buf) PaintPropertyBinder \<times> 's" where
  "perform_all ops context state [] = Inr state"
| "perform_all ops context state (call # calls) =
     (case perform ops context state call of
        Inl e \<Rightarrow> Inl e
      | Inr state' \<Rightarrow> perform_all ops context state' calls)"

section \<open>Example inputs\<close>

text \<open>
  Concrete collaborators on which the properties below are exercised: a statistics
  aggregate that keeps every value it is given, a graphics context whose buffer handle
  is the uploaded vertex sequence itself, a source function defined on every feature
  but feature 0, and a composite function with base 2 over the zoom stops 10 and 14.
\<close>

fun log_value :: "Value \<Rightarrow> Value list \<Rightarrow> Value list" where
  "log_value v seen = seen @ [v]"

fun log_range :: "Value Range \<Rightarrow> Value list \<Rightarrow> Value list" where
  "log_range rg seen = seen @ [range_min rg, range_max rg]"

definition logging_statistics :: "Value list Statistics" where
  "logging_statistics = \<lparr>add_value = log_value, add_range = log_range\<rparr>"

fun keep_vertices :: "float list list \<Rightarrow> (float list list \<times> float list list) option" where
  "keep_vertices vertices = Some (vertices, [])"

definition example_context :: "float list list Context" where
  "example_context = \<lparr>createVertexBuffer = keep_vertices\<rparr>"

fun example_source :: "nat SourceFunction" where
  "example_source feature = (if feature = 0 then None else Some (Scalar (of_nat feature)))"

fun stops_coveringRanges :: "float \<Rightarrow> float Range \<times> float Range" where
  "stops_coveringRanges zoom =
     (\<lparr>range_min = 10, range_max = 14\<rparr>, \<lparr>range_min = 10, range_max = 14\<rparr>)"

fun stops_evaluate :: "float Range \<Rightarrow> nat \<Rightarrow> Value \<Rightarrow> Value Range" where
  "stops_evaluate stops feature defaultValue =
     (if feature = 0 then \<lparr>range_min = defaultValue, range_max = defaultValue\<rparr>
      else \<lparr>range_min = Scalar (range_min stops * of_nat feature),
            range_max = Scalar (range_max stops * of_nat feature)\<rparr>)"

definition example_composite :: "(nat, float) CompositeFunction" where
  "example_composite =
     \<lparr>base = 2, coveringRanges = stops_coveringRanges, evaluate = stops_evaluate\<rparr>"

section \<open>Properties of the attribute encoder\<close>

subsection \<open>Rounding to single precision\<close>

lemma round_nearest_even_bounds: "\<lfloor>y\<rfloor> \<le> round_nearest_even y \<and> round_nearest_even y \<le> \<lceil>y\<rceil>"
  unfolding round_nearest_even_def Let_def
  by (auto simp: ceiling_altdef)

lemma round_nearest_even_of_int: "round_nearest_even (of_int n) = n"
  by (simp add: round_nearest_even_def)

lemma quantum_exponent_le:
  assumes "0 \<le> y" "y < 2 ^ 173"
  shows "nat (bitlen \<lfloor>y\<rfloor> - 24) \<le> 149"
proof -
  have "\<lfloor>y\<rfloor> < 2 ^ 173"
    using assms(2) by (simp add: floor_less_iff)
  then have "bitlen \<lfloor>y\<rfloor> \<le> 173"
    by (simp add: bitlen_le_iff_power)
  then show ?thesis by simp
qed

lemma round32_zero: "round32 0 = 0"
  by (simp add: round32_def)

lemma round32_nonneg:
  assumes "0 \<le> x"
  shows "0 \<le> round32 x"
proof -
  define y where "y = \<bar>x\<bar> * 2 ^ 149"
  define q :: int where "q = 2 ^ nat (bitlen \<lfloor>y\<rfloor> - 24)"
  have q: "0 < q" by (simp add: q_def)
  have "0 \<le> y / of_int q" using q by (simp add: y_def)
  then have "0 \<le> \<lfloor>y / of_int q\<rfloor>" by simp
  then have "0 \<le> round_nearest_even (y / of_int q)"
    using round_nearest_even_bounds [of "y / of_int q"] by linarith
  then have "0 \<le> round_nearest_even (y / of_int q) * q" using q by simp
  then have "0 \<le> (of_int (round_nearest_even (y / of_int q) * q) :: real)"
    using of_int_0_le_iff by blast
  moreover have "0 \<le> sgn x" using assms by simp
  ultimately have "0 \<le> sgn x * of_int (round_nearest_even (y / of_int q) * q) / 2 ^ 149"
    by simp
  then show ?thesis
    by (simp add: round32_def Let_def y_def q_def)
qed

lemma round32_le_int:
  assumes "0 \<le> x" "x \<le> of_int k" "k < 2 ^ 24"
  shows "round32 x \<le> of_int k"
proof -
  define y where "y = \<bar>x\<bar> * 2 ^ 149"
  define j where "j = nat (bitlen \<lfloor>y\<rfloor> - 24)"
  define q :: int where "q = 2 ^ j"
  define n where "n = round_nearest_even (y / of_int q)"
  have r: "round32 x = sgn x * of_int (n * q) / 2 ^ 149"
    by (simp add: round32_def Let_def y_def q_def j_def n_def)
  have k0: "0 \<le> k" using assms(1,2) by linarith
  have y0: "0 \<le> y" by (simp add: y_def)
  have yk: "y \<le> of_int k * 2 ^ 149" using assms(1,2) by (simp add: y_def)
  have "(of_int k :: real) < 2 ^ 24" using assms(3) by (metis of_int_less_numeral_power_cancel_iff)
  then have "(of_int k :: real) * 2 ^ 149 < 2 ^ 24 * 2 ^ 149" by simp
  then have "y < 2 ^ 173" using yk by simp
  then have j: "j \<le> 149" unfolding j_def using y0 by (rule quantum_exponent_le [rotated])
  have q: "0 < q" by (simp add: q_def)
  have split: "(2::int) ^ 149 = q * 2 ^ (149 - j)"
    using j by (simp add: q_def flip: power_add)
  have "y / of_int q \<le> of_int (k * 2 ^ (149 - j))"
  proof -
    have "y \<le> of_int (k * 2 ^ 149)" using yk by simp
    also have "\<dots> = of_int (k * 2 ^ (149 - j)) * of_int q"
      by (simp only: split of_int_mult) (simp add: mult.commute)
    finally show ?thesis using q by (simp add: pos_divide_le_eq)
  qed
  then have "\<lceil>y / of_int q\<rceil> \<le> k * 2 ^ (149 - j)" by (simp add: ceiling_le_iff)
  then have "n \<le> k * 2 ^ (149 - j)"
    using round_nearest_even_bounds [of "y / of_int q"] unfolding n_def by linarith
  then have "n * q \<le> k * 2 ^ (149 - j) * q" using q by simp
  also have "\<dots> = k * 2 ^ 149" by (simp only: split mult_ac)
  finally have nq: "(of_int (n * q) :: real) \<le> of_int k * 2 ^ 149"
    by (metis of_int_le_iff of_int_mult of_int_numeral of_int_power)
  show ?thesis
  proof (cases "x = 0")
    case True
    then show ?thesis using k0 by (simp add: round32_zero)
  next
    case False
    then have "sgn x = 1" using assms(1) by simp
    then show ?thesis using nq by (simp add: r pos_divide_le_eq)
  qed
qed

lemma round32_of_int:
  assumes "0 \<le> k" "k < 2 ^ 24"
  shows "round32 (of_int k) = of_int k"
proof -
  define y :: real where "y = \<bar>of_int k\<bar> * 2 ^ 149"
  define j where "j = nat (bitlen \<lfloor>y\<rfloor> - 24)"
  define q :: int where "q = 2 ^ j"
  define n where "n = round_nearest_even (y / of_int q)"
  have r: "round32 (of_int k) = sgn (of_int k) * of_int (n * q) / 2 ^ 149"
    by (simp add: round32_def Let_def y_def q_def j_def n_def)
  have y: "y = of_int (k * 2 ^ 149)" using assms(1) by (simp add: y_def)
  have y0: "0 \<le> y" by (simp add: y_def)
  have "(of_int k :: real) < 2 ^ 24" using assms(2) by (metis of_int_less_numeral_power_cancel_iff)
  then have "(of_int k :: real) * 2 ^ 149 < 2 ^ 24 * 2 ^ 149" by simp
  then have "y < 2 ^ 173" using assms(1) by (simp add: y_def)
  then have j: "j \<le> 149" unfolding j_def using y0 by (rule quantum_exponent_le [rotated])
  have q: "0 < q" by (simp add: q_def)
  have split: "(2::int) ^ 149 = q * 2 ^ (149 - j)"
    using j by (simp add: q_def flip: power_add)
  have "y = of_int (k * 2 ^ (149 - j)) * of_int q"
    unfolding y by (simp only: split of_int_mult) (simp add: mult.commute)
  then have "y / of_int q = of_int (k * 2 ^ (149 - j))" using q by simp
  then have "n = k * 2 ^ (149 - j)"
    unfolding n_def by (simp only: round_nearest_even_of_int)
  then have "n * q = k * 2 ^ 149" by (simp only: split mult_ac)
  then have nq: "(of_int (n * q) :: real) = of_int k * 2 ^ 149"
    by (metis of_int_mult of_int_numeral of_int_power)
  show ?thesis
  proof (cases "k = 0")
    case True
    then show ?thesis by (simp add: round32_zero)
  next
    case False
    then have "sgn (of_int k :: real) = 1" using assms(1) by simp
    then show ?thesis using nq by (simp add: r)
  qed
qed


lemma float_to_uint16_byte:
  assumes "0 \<le> x" "x \<le> 255"
  shows "\<exists>w. float_to_uint16 x = Inr w \<and> uint w = \<lfloor>x\<rfloor>"
proof -
  have f: "0 \<le> \<lfloor>x\<rfloor>" "\<lfloor>x\<rfloor> \<le> 255"
    using assms by (simp_all add: floor_le_iff le_floor_iff)
  then have "uint (word_of_int \<lfloor>x\<rfloor> :: 16 word) = \<lfloor>x\<rfloor>"
    by (simp add: uint_word_of_int_eq take_bit_int_eq_self)
  then show ?thesis
    using assms(1) f by (simp add: float_to_uint16_def)
qed

lemma fmul_255_bounds:
  assumes "0 \<le> c" "c \<le> 1"
  shows "0 \<le> fmul c 255 \<and> fmul c 255 \<le> 255"
proof -
  have "0 \<le> c * 255" using assms(1) by simp
  moreover have "c * 255 \<le> of_int 255" using assms(2) by simp
  ultimately show ?thesis
    using round32_nonneg [of "c * 255"] round32_le_int [of "c * 255" 255]
    by (simp add: fmul_def)
qed


lemma pack_exact:
  assumes "0 \<le> hi" "hi \<le> 255" "0 \<le> lo" "lo \<le> 255"
  shows "int_to_float (hi * 256 + lo) = of_int (hi * 256 + lo)"
proof -
  have "0 \<le> hi * 256 + lo" using assms by simp
  moreover have "hi * 256 + lo < 2 ^ 24" using assms by simp
  ultimately show ?thesis
    unfolding int_to_float_def by (rule round32_of_int)
qed

lemma attributeValue_Color_unit:
  assumes "0 \<le> r c" "r c \<le> 1" "0 \<le> g c" "g c \<le> 1"
    and "0 \<le> b c" "b c \<le> 1" "0 \<le> a c" "a c \<le> 1"
  shows "attributeValue_Color c =
           Inr [of_int (\<lfloor>fmul (r c) 255\<rfloor> * 256 + \<lfloor>fmul (g c) 255\<rfloor>),
                of_int (\<lfloor>fmul (b c) 255\<rfloor> * 256 + \<lfloor>fmul (a c) 255\<rfloor>)]"
proof -
  note br = fmul_255_bounds [OF assms(1,2)]
  note bg = fmul_255_bounds [OF assms(3,4)]
  note bb = fmul_255_bounds [OF assms(5,6)]
  note ba = fmul_255_bounds [OF assms(7,8)]
  obtain r16 where r16: "float_to_uint16 (fmul (r c) 255) = Inr r16" "uint r16 = \<lfloor>fmul (r c) 255\<rfloor>"
    using float_to_uint16_byte br by blast
  obtain g16 where g16: "float_to_uint16 (fmul (g c) 255) = Inr g16" "uint g16 = \<lfloor>fmul (g c) 255\<rfloor>"
    using float_to_uint16_byte bg by blast
  obtain b16 where b16: "float_to_uint16 (fmul (b c) 255) = Inr b16" "uint b16 = \<lfloor>fmul (b c) 255\<rfloor>"
    using float_to_uint16_byte bb by blast
  obtain a16 where a16: "float_to_uint16 (fmul (a c) 255) = Inr a16" "uint a16 = \<lfloor>fmul (a c) 255\<rfloor>"
    using float_to_uint16_byte ba by blast
  have fr: "0 \<le> \<lfloor>fmul (r c) 255\<rfloor>" "\<lfloor>fmul (r c) 255\<rfloor> \<le> 255"
    using br by (simp_all add: floor_le_iff le_floor_iff)
  have fg: "0 \<le> \<lfloor>fmul (g c) 255\<rfloor>" "\<lfloor>fmul (g c) 255\<rfloor> \<le> 255"
    using bg by (simp_all add: floor_le_iff le_floor_iff)
  have fb: "0 \<le> \<lfloor>fmul (b c) 255\<rfloor>" "\<lfloor>fmul (b c) 255\<rfloor> \<le> 255"
    using bb by (simp_all add: floor_le_iff le_floor_iff)
  have fa: "0 \<le> \<lfloor>fmul (a c) 255\<rfloor>" "\<lfloor>fmul (a c) 255\<rfloor> \<le> 255"
    using ba by (simp_all add: floor_le_iff le_floor_iff)
  show ?thesis
    by (simp only: attributeValue_Color_def r16 g16 b16 a16 sum.case
        pack_exact [OF fr fg] pack_exact [OF fb fa])
qed

lemma decode_pack:
  assumes "0 \<le> lo" "lo \<le> 255"
  shows "decode_high (of_int (hi * 256 + lo)) = of_int hi"
    and "decode_low (of_int (hi * 256 + lo)) = of_int lo"
proof -
  have "(of_int (hi * 256 + lo) :: real) / 256 = of_int hi + of_int lo / 256" by simp
  moreover have "0 \<le> (of_int lo :: real) / 256" "(of_int lo :: real) / 256 < 1"
    using assms by simp_all
  ultimately have "\<lfloor>(of_int (hi * 256 + lo) :: real) / 256\<rfloor> = hi"
    by (simp add: floor_unique)
  then show "decode_high (of_int (hi * 256 + lo)) = of_int hi"
    and "decode_low (of_int (hi * 256 + lo)) = of_int lo"
    by (simp_all add: decode_high_def decode_low_def)
qed

lemma round_nearest_even_up:
  assumes "x < of_int z" "z \<le> round_nearest_even x"
  shows "of_int z - 1 / 2 \<le> x"
proof -
  have f: "\<lfloor>x\<rfloor> < z" using assms(1) by (simp add: floor_less_iff)
  have d: "1 / 2 \<le> x - of_int \<lfloor>x\<rfloor>"
    using assms(2) f by (auto simp: round_nearest_even_def Let_def split: if_splits)
  have "round_nearest_even x \<le> \<lfloor>x\<rfloor> + 1"
    by (auto simp: round_nearest_even_def Let_def)
  then have "z \<le> \<lfloor>x\<rfloor> + 1" using assms(2) by linarith
  then have "(of_int z :: real) \<le> of_int \<lfloor>x\<rfloor> + 1"
    by (metis of_int_1 of_int_add of_int_le_iff)
  then show ?thesis using d by linarith
qed

lemma round32_ge_int:
  assumes "0 \<le> k" "of_int k \<le> x" "x < 2 ^ 24"
  shows "of_int k \<le> round32 x"
proof -
  define y where "y = \<bar>x\<bar> * 2 ^ 149"
  define j where "j = nat (bitlen \<lfloor>y\<rfloor> - 24)"
  define q :: int where "q = 2 ^ j"
  define n where "n = round_nearest_even (y / of_int q)"
  have r: "round32 x = sgn x * of_int (n * q) / 2 ^ 149"
    by (simp add: round32_def Let_def y_def q_def j_def n_def)
  have x0: "0 \<le> x" using assms(1,2) by (smt (verit) of_int_nonneg)
  have y0: "0 \<le> y" by (simp add: y_def)
  have yk: "of_int k * 2 ^ 149 \<le> y" using assms(2) x0 by (simp add: y_def)
  have "x * 2 ^ 149 < 2 ^ 24 * 2 ^ 149" using assms(3) by simp
  then have "y < 2 ^ 173" using x0 by (simp add: y_def)
  then have j: "j \<le> 149" unfolding j_def using y0 by (rule quantum_exponent_le [rotated])
  have q: "0 < q" by (simp add: q_def)
  have split: "(2::int) ^ 149 = q * 2 ^ (149 - j)"
    using j by (simp add: q_def flip: power_add)
  have "of_int (k * 2 ^ (149 - j)) \<le> y / of_int q"
  proof -
    have "of_int (k * 2 ^ (149 - j)) * of_int q = (of_int (k * 2 ^ 149) :: real)"
      by (simp only: split of_int_mult) (simp add: mult.commute)
    also have "\<dots> \<le> y" using yk by simp
    finally show ?thesis using q by (simp add: pos_le_divide_eq)
  qed
  then have "k * 2 ^ (149 - j) \<le> \<lfloor>y / of_int q\<rfloor>" by (simp add: le_floor_iff)
  then have "k * 2 ^ (149 - j) \<le> n"
    using round_nearest_even_bounds [of "y / of_int q"] unfolding n_def by linarith
  then have "k * 2 ^ (149 - j) * q \<le> n * q" using q by simp
  moreover have "k * 2 ^ (149 - j) * q = k * 2 ^ 149" by (simp only: split mult_ac)
  ultimately have "k * 2 ^ 149 \<le> n * q" by simp
  then have nq: "of_int k * 2 ^ 149 \<le> (of_int (n * q) :: real)"
    by (metis of_int_le_iff of_int_mult of_int_numeral of_int_power)
  show ?thesis
  proof (cases "x = 0")
    case True
    then have "k = 0" using assms(1,2) by simp
    then show ?thesis using True by (simp add: round32_zero)
  next
    case False
    then have "sgn x = 1" using x0 by simp
    then show ?thesis using nq by (simp add: r pos_le_divide_eq)
  qed
qed

lemma round32_representation:
  assumes "round32 c = c" "0 \<le> c"
  obtains N where "c * 2 ^ 149 = of_int N" "0 \<le> N" "2 ^ nat (bitlen N - 24) dvd N"
proof (cases "c = 0")
  case True
  show ?thesis by (rule that [of 0]) (simp_all add: True)
next
  case False
  define y where "y = \<bar>c\<bar> * 2 ^ 149"
  define q :: int where "q = 2 ^ nat (bitlen \<lfloor>y\<rfloor> - 24)"
  define n where "n = round_nearest_even (y / of_int q)"
  have "round32 c = sgn c * of_int (n * q) / 2 ^ 149"
    by (simp add: round32_def Let_def y_def q_def n_def)
  moreover have "sgn c = 1" using False assms(2) by simp
  ultimately have "c = of_int (n * q) / 2 ^ 149" using assms(1) by simp
  then have c: "c * 2 ^ 149 = of_int (n * q)" by simp
  then have y: "y = of_int (n * q)" using assms(2) by (simp add: y_def)
  have fl: "\<lfloor>y\<rfloor> = n * q" unfolding y by (rule floor_of_int)
  have "0 \<le> c * 2 ^ 149" using assms(2) by simp
  then have "(0::real) \<le> of_int (n * q)" unfolding c .
  then have nn: "0 \<le> n * q" by (simp only: of_int_0_le_iff)
  have qe: "q = 2 ^ nat (bitlen (n * q) - 24)"
    by (subst fl [symmetric]) (rule q_def)
  have "2 ^ nat (bitlen (n * q) - 24) dvd n * q"
    by (subst qe [symmetric]) simp
  then show ?thesis using c nn that by blast
qed


lemma dvd_65793:
  fixes n d :: int
  assumes "2 ^ 24 dvd 255 * n + d" "0 \<le> n" "n < 2 ^ 24" "0 < d" "d \<le> 128"
  shows "n = 65793 * d"
proof -
  have "(2::int) ^ 24 dvd 65793 * (255 * n + d)" using assms(1) by (rule dvd_mult)
  moreover have "65793 * (255 * n + d) = 2 ^ 24 * n + (65793 * d - n)" by simp
  ultimately have "(2::int) ^ 24 dvd 2 ^ 24 * n + (65793 * d - n)" by simp
  then have "(2::int) ^ 24 dvd 65793 * d - n"
    using dvd_add_right_iff [of "2 ^ 24" "2 ^ 24 * n" "65793 * d - n"] by simp
  then obtain t where t: "65793 * d - n = 2 ^ 24 * t" by (auto simp: dvd_def)
  have "t = 0" using t assms(2-5) by simp
  then show ?thesis using t by simp
qed

lemma bitlen_le_of_less:
  assumes "x < 2 ^ w"
  shows "nat (bitlen x - 24) \<le> w - 24"
proof -
  have "bitlen x \<le> int w" using assms by (simp add: bitlen_le_iff_power)
  then show ?thesis by simp
qed

text \<open>
  Multiplying a binary32 number of the unit interval by 255 never rounds up to the next
  integer: the truncated single-precision product is the floor of the exact product.
\<close>

lemma fmul_255_floor_exact:
  assumes "round32 c = c" "0 \<le> c" "c \<le> 1"
  shows "\<lfloor>fmul c 255\<rfloor> = \<lfloor>c * 255\<rfloor>"
proof -
  obtain N where N: "c * 2 ^ 149 = of_int N" "0 \<le> N" "2 ^ nat (bitlen N - 24) dvd N"
    using assms(1,2) by (rule round32_representation)
  define p where "p = c * 255"
  define m where "m = \<lfloor>p\<rfloor>"
  have p0: "0 \<le> p" and p255: "p \<le> 255" using assms(2,3) by (simp_all add: p_def)
  have m0: "0 \<le> m" and m255: "m \<le> 255"
    using p0 p255 by (simp_all add: m_def floor_le_iff le_floor_iff)
  have mp: "of_int m \<le> p" and pm: "p < of_int (m + 1)" by (simp_all add: m_def)
  have lower: "of_int m \<le> round32 p"
    using m0 mp p255 by (intro round32_ge_int) simp_all
  have upper: "round32 p < of_int (m + 1)"
  proof (rule ccontr)
    assume "\<not> round32 p < of_int (m + 1)"
    then have ge: "of_int (m + 1) \<le> round32 p" by simp
    define Y where "Y = 255 * N"
    define J where "J = nat (bitlen Y - 24)"
    define Q :: int where "Q = 2 ^ J"
    define n' where "n' = round_nearest_even (of_int Y / of_int Q)"
    have yp: "\<bar>p\<bar> * 2 ^ 149 = of_int Y"
      using p0 N(1) by (simp add: p_def Y_def)
    have r: "round32 p = sgn p * of_int (n' * Q) / 2 ^ 149"
      unfolding round32_def Let_def yp floor_of_int n'_def Q_def J_def ..
    have "p \<noteq> 0" using ge m0 by (auto simp: round32_zero)
    then have sg: "sgn p = 1" using p0 by simp
    have "of_int (m + 1) * 2 ^ 149 \<le> (of_int (n' * Q) :: real)"
      using ge by (simp add: r sg pos_le_divide_eq)
    then have "(of_int ((m + 1) * 2 ^ 149) :: real) \<le> of_int (n' * Q)" by simp
    then have Ki: "(m + 1) * 2 ^ 149 \<le> n' * Q" by (simp only: of_int_le_iff)
    have "p * 2 ^ 149 < of_int (m + 1) * 2 ^ 149" using pm by simp
    then have "(of_int Y :: real) < of_int ((m + 1) * 2 ^ 149)" using yp p0 by simp
    then have YK: "Y < (m + 1) * 2 ^ 149" by (simp only: of_int_less_iff)
    have Y0: "0 \<le> Y" using N(2) by (simp add: Y_def)
    have "Y < 2 ^ 157" using YK m255 by simp
    then have J133: "J \<le> 133" unfolding J_def using bitlen_le_of_less [of Y 157] by simp
    have Q0: "0 < Q" by (simp add: Q_def)
    have split: "(2::int) ^ 149 = Q * 2 ^ (149 - J)"
      using J133 by (simp add: Q_def flip: power_add)
    define K' where "K' = (m + 1) * 2 ^ (149 - J)"
    have KQ: "(m + 1) * 2 ^ 149 = K' * Q" by (simp only: K'_def split mult_ac)
    have n'K': "K' \<le> n'" using Ki Q0 unfolding KQ by simp
    have "(of_int Y :: real) < of_int K' * of_int Q"
      using YK unfolding KQ by (metis of_int_less_iff of_int_mult)
    then have lt: "of_int Y / of_int Q < (of_int K' :: real)"
      using Q0 by (simp add: pos_divide_less_eq)
    have "of_int K' - 1 / 2 \<le> (of_int Y / of_int Q :: real)"
      using lt n'K' unfolding n'_def by (rule round_nearest_even_up)
    then have "(of_int K' - 1 / 2) * of_int Q \<le> (of_int Y :: real)"
      using Q0 by (simp add: pos_le_divide_eq)
    then have "(of_int (2 * (K' * Q) - Q) :: real) \<le> of_int (2 * Y)"
      by (simp add: algebra_simps)
    then have "2 * (K' * Q) - Q \<le> 2 * Y" by (simp only: of_int_le_iff)
    then have DQ: "2 * ((m + 1) * 2 ^ 149 - Y) \<le> Q" unfolding KQ by simp
    show False
    proof (cases "bitlen N \<le> 24")
      case True
      then have "N < 2 ^ 24" by (simp add: bitlen_le_iff_power)
      then have "Y < 2 ^ 32" by (simp add: Y_def)
      then have "J \<le> 8" unfolding J_def using bitlen_le_of_less [of Y 32] by simp
      then have "Q \<le> 2 ^ 8" unfolding Q_def by (intro power_increasing) simp_all
      then show False using DQ \<open>Y < 2 ^ 32\<close> m0 by simp
    next
      case False
      define j where "j = nat (bitlen N - 24)"
      define P :: int where "P = 2 ^ j"
      have P0: "0 < P" by (simp add: P_def)
      have bl: "bitlen N = int j + 24" using False by (simp add: j_def)
      have Npos: "0 < N" using False N(2) by (cases "N = 0") simp_all
      have "nat (bitlen N - 1) = j + 23" "nat (bitlen N) = j + 24" using bl by simp_all
      then have "2 ^ (j + 23) \<le> N" "N < 2 ^ (j + 24)"
        using bitlen_bounds [OF Npos] by simp_all
      then have Nb: "2 ^ 23 * P \<le> N" "N < 2 ^ 24 * P"
        by (simp_all add: P_def power_add mult.commute)
      obtain n where n: "N = n * P"
        using N(3) unfolding j_def [symmetric] P_def [symmetric] by (auto simp: dvd_def mult.commute)
      have nb: "2 ^ 23 \<le> n" "n < 2 ^ 24"
        using Nb P0 unfolding n by simp_all
      have "c * 2 ^ 149 \<le> 2 ^ 149" using assms(3) by simp
      then have "(of_int N :: real) \<le> of_int (2 ^ 149)" unfolding N(1) by simp
      then have N149: "N \<le> 2 ^ 149" by (simp only: of_int_le_iff)
      have "(2::int) ^ (j + 23) \<le> 2 ^ 149" using \<open>2 ^ (j + 23) \<le> N\<close> N149 by linarith
      then have "j + 23 \<le> 149" by (simp only: power_increasing_iff)
      then have j126: "j \<le> 126" by simp
      have Yn: "Y = 255 * n * P" by (simp add: Y_def n)
      have "255 * n < 2 ^ 32" using nb by simp
      then have "255 * n * P < 2 ^ 32 * P" using P0 by simp
      then have "Y < 2 ^ (j + 32)" by (simp add: Yn P_def power_add mult.commute)
      then have "J \<le> j + 8" unfolding J_def using bitlen_le_of_less [of Y "j + 32"] by simp
      then have "Q \<le> 2 ^ (j + 8)" unfolding Q_def by (intro power_increasing) simp_all
      then have Q256: "Q \<le> 256 * P" by (simp add: P_def power_add mult.commute)
      have splitj: "(2::int) ^ 149 = 2 ^ (149 - j) * P"
        using j126 by (simp add: P_def flip: power_add)
      define d where "d = (m + 1) * 2 ^ (149 - j) - 255 * n"
      have Dd: "(m + 1) * 2 ^ 149 - Y = d * P"
        by (simp only: d_def Yn splitj) (simp add: algebra_simps)
      have d0: "0 < d"
      proof -
        have "0 < d * P" using YK unfolding Dd [symmetric] by simp
        then show ?thesis using P0 by (simp add: zero_less_mult_iff)
      qed
      have "2 * (d * P) \<le> 256 * P" using DQ Q256 unfolding Dd by linarith
      then have "(2 * d) * P \<le> 256 * P" by (simp only: mult.assoc)
      then have "2 * d \<le> 256" using P0 by (rule mult_right_le_imp_le)
      then have d128: "d \<le> 128" by simp
      show False
      proof (cases "j = 126")
        case True
        then have "d = (m + 1) * 2 ^ 23 - 255 * n" by (simp add: d_def)
        moreover have "n * 2 ^ 126 \<le> 2 ^ 149" using N149 True by (simp add: n P_def)
        then have "n \<le> 2 ^ 23" by simp
        ultimately show False using d0 d128 nb m255 by simp
      next
        case False
        then have j125: "j \<le> 125" using j126 by simp
        have "149 - j = 24 + (125 - j)" using j125 by simp
        then have "(2::int) ^ (149 - j) = 2 ^ 24 * 2 ^ (125 - j)"
          by (simp only: power_add)
        then have "255 * n + d = 2 ^ 24 * ((m + 1) * 2 ^ (125 - j))"
          by (simp add: d_def)
        then have "(2::int) ^ 24 dvd 255 * n + d" by (simp only: dvd_triv_left)
        then have nd: "n = 65793 * d"
          using nb d0 d128 by (intro dvd_65793) simp_all
        then have "d = 128" using nb(1) d128 by simp
        then have "Y = 2147483520 * P" by (simp add: Yn nd)
        then have "Y < 2 ^ 31 * P" using P0 by simp
        then have "Y < 2 ^ (j + 31)" by (simp add: P_def power_add mult.commute)
        then have "J \<le> j + 7" unfolding J_def using bitlen_le_of_less [of Y "j + 31"] by simp
        then have "Q \<le> 2 ^ (j + 7)" unfolding Q_def by (intro power_increasing) simp_all
        then have "Q \<le> 128 * P" by (simp add: P_def power_add mult.commute)
        then have "2 * (d * P) \<le> 128 * P" using DQ unfolding Dd by linarith
        then show False using P0 unfolding \<open>d = 128\<close> by simp
      qed
    qed
  qed
  have "\<lfloor>round32 p\<rfloor> = m"
    using lower upper by (intro floor_unique) simp_all
  then show ?thesis by (simp add: fmul_def p_def m_def)
qed

subsection \<open>Packing a colour\<close>

text \<open>
  C2. The colour \<open>(0.5, 0.25, 0.75, 1.0)\<close> is encoded to the two floats 32575 and
  49151: the scaled components truncate to 127, 63, 191 and 255, so the second float
  is \<open>191 * 256 + 255 = 49151\<close>, its low byte holding the alpha component.
\<close>

theorem attributeValue_scenario_colour:
  "attributeValue (Colour \<lparr>r = 0.5, g = 0.25, b = 0.75, a = 1\<rparr>) = Inr [32575, 49151]"
  by code_simp

text \<open>The pair 32575, 48896 is not what the encoder returns for that colour.\<close>

theorem attributeValue_scenario_colour_not_48896:
  "attributeValue (Colour \<lparr>r = 0.5, g = 0.25, b = 0.75, a = 1\<rparr>) \<noteq> Inr [32575, 48896]"
  by code_simp

lemma unit_float_floor:
  assumes "unit_float x"
  shows "\<lfloor>fmul x 255\<rfloor> = \<lfloor>x * 255\<rfloor>" "0 \<le> \<lfloor>x * 255\<rfloor>" "\<lfloor>x * 255\<rfloor> \<le> 255"
proof -
  have x: "round32 x = x" "0 \<le> x" "x \<le> 1" using assms by (simp_all add: unit_float_def)
  show "\<lfloor>fmul x 255\<rfloor> = \<lfloor>x * 255\<rfloor>" using x by (rule fmul_255_floor_exact)
  show "0 \<le> \<lfloor>x * 255\<rfloor>" "\<lfloor>x * 255\<rfloor> \<le> 255"
    using x(2,3) by (simp_all add: floor_le_iff le_floor_iff)
qed

lemma attributeValue_Color_exact:
  assumes "unit_float (r c)" "unit_float (g c)" "unit_float (b c)" "unit_float (a c)"
  shows "attributeValue_Color c =
           Inr [of_int (\<lfloor>r c * 255\<rfloor> * 256 + \<lfloor>g c * 255\<rfloor>),
                of_int (\<lfloor>b c * 255\<rfloor> * 256 + \<lfloor>a c * 255\<rfloor>)]"
proof -
  have "attributeValue_Color c =
           Inr [of_int (\<lfloor>fmul (r c) 255\<rfloor> * 256 + \<lfloor>fmul (g c) 255\<rfloor>),
                of_int (\<lfloor>fmul (b c) 255\<rfloor> * 256 + \<lfloor>fmul (a c) 255\<rfloor>)]"
    using assms by (intro attributeValue_Color_unit) (simp_all add: unit_float_def)
  then show ?thesis
    by (simp only: unit_float_floor(1) [OF assms(1)] unit_float_floor(1) [OF assms(2)]
        unit_float_floor(1) [OF assms(3)] unit_float_floor(1) [OF assms(4)])
qed

text \<open>
  C4. For every colour whose components are floats in \<open>[0, 1]\<close> the encoder returns
  exactly the two channels \<open>f0 = floor (r * 255) * 256 + floor (g * 255)\<close> and
  \<open>f1 = floor (b * 255) * 256 + floor (a * 255)\<close>: each scaled component is truncated
  to an integer before it is multiplied by 256. The products in the statement are exact;
  the single-precision products of the encoder have the same floors.
\<close>

theorem attributeValue_Colour_packing:
  assumes "unit_float (r c)" "unit_float (g c)" "unit_float (b c)" "unit_float (a c)"
  shows "attributeValue (Colour c) =
           Inr [of_int \<lfloor>r c * 255\<rfloor> * 256 + of_int \<lfloor>g c * 255\<rfloor>,
                of_int \<lfloor>b c * 255\<rfloor> * 256 + of_int \<lfloor>a c * 255\<rfloor>]"
  using attributeValue_Color_exact [OF assms] by simp

theorem attributeValue_Colour_packing_witness:
  "attributeValue (Colour \<lparr>r = 5/8, g = 3/8, b = 7/8, a = 1/16\<rparr>) = Inr [40799, 57103]"
proof -
  have "unit_float (5/8)" "unit_float (3/8)" "unit_float (7/8)" "unit_float (1/16)"
    by code_simp+
  then show ?thesis
    using attributeValue_Colour_packing [of "\<lparr>r = 5/8, g = 3/8, b = 7/8, a = 1/16\<rparr>"] by simp
qed

text \<open>
  C3. For every colour whose components are floats in \<open>[0, 1]\<close>, decoding the two
  encoded floats by \<open>floor (f / 256)\<close> and \<open>f mod 256\<close> gives back the four quantised
  channel values \<open>floor (r * 255)\<close>, \<open>floor (g * 255)\<close>, \<open>floor (b * 255)\<close> and
  \<open>floor (a * 255)\<close>.
\<close>

theorem colour_round_trip:
  assumes "unit_float (r c)" "unit_float (g c)" "unit_float (b c)" "unit_float (a c)"
  shows "\<exists>f0 f1. attributeValue (Colour c) = Inr [f0, f1]
           \<and> decode_high f0 = of_int \<lfloor>r c * 255\<rfloor>
           \<and> decode_low f0 = of_int \<lfloor>g c * 255\<rfloor>
           \<and> decode_high f1 = of_int \<lfloor>b c * 255\<rfloor>
           \<and> decode_low f1 = of_int \<lfloor>a c * 255\<rfloor>"
  using attributeValue_Color_exact [OF assms]
    decode_pack [OF unit_float_floor(2,3) [OF assms(2)]]
    decode_pack [OF unit_float_floor(2,3) [OF assms(4)]]
  by simp

theorem colour_round_trip_witness:
  "\<exists>f0 f1. attributeValue (Colour \<lparr>r = 3/8, g = 1/2, b = 1/8, a = 1\<rparr>) = Inr [f0, f1]
     \<and> decode_high f0 = 95 \<and> decode_low f0 = 127
     \<and> decode_high f1 = 31 \<and> decode_low f1 = 255"
proof -
  have "unit_float (3/8)" "unit_float (1/2)" "unit_float (1/8)" "unit_float 1"
    by code_simp+
  then show ?thesis
    using colour_round_trip [of "\<lparr>r = 3/8, g = 1/2, b = 1/8, a = 1\<rparr>"] by simp
qed

section \<open>Properties of the binders\<close>

subsection \<open>The two loops\<close>

lemma emplace_loop_replicate:
  "emplace_loop i len v vertices = vertices @ replicate (len - i) v"
proof (induction i len v vertices rule: emplace_loop.induct)
  case (1 i len v vertices)
  show ?case
  proof (cases "i < len")
    case True
    then have "len - i = Suc (len - Suc i)" by simp
    with True "1" show ?thesis
      by (subst emplace_loop.simps) (simp add: replicate_app_Cons_same)
  next
    case False
    then show ?thesis by (subst emplace_loop.simps) simp
  qed
qed

lemma zoomInterpolated_loop_length:
  "length (zoomInterpolated_loop i N mn mx res) = length res"
proof (induction i N mn mx res rule: zoomInterpolated_loop.induct)
  case (1 i N mn mx res)
  then show ?case by (subst zoomInterpolated_loop.simps) simp
qed

lemma zoomInterpolated_loop_nth:
  assumes "length res = N * 2" "k < N * 2"
  shows "zoomInterpolated_loop i N mn mx res ! k =
           (if i \<le> k \<and> k < N then mn ! k
            else if N + i \<le> k then mx ! (k - N)
            else res ! k)"
  using assms
proof (induction i N mn mx res rule: zoomInterpolated_loop.induct)
  case (1 i N mn mx res)
  show ?case
  proof (cases "i < N")
    case True
    have "zoomInterpolated_loop i N mn mx res ! k =
            zoomInterpolated_loop (Suc i) N mn mx (res[i := mn ! i, i + N := mx ! i]) ! k"
      using True by (subst zoomInterpolated_loop.simps) simp
    also have "\<dots> = (if Suc i \<le> k \<and> k < N then mn ! k
                      else if N + Suc i \<le> k then mx ! (k - N)
                      else res[i := mn ! i, i + N := mx ! i] ! k)"
      using "1.IH" [OF True] "1.prems" by simp
    also have "\<dots> = (if i \<le> k \<and> k < N then mn ! k
                      else if N + i \<le> k then mx ! (k - N)
                      else res ! k)"
    proof (cases "k = i + N")
      case True
      then have "k - N = i" by simp
      with True \<open>i < N\<close> "1.prems" show ?thesis by (simp add: nth_list_update)
    next
      case False
      with \<open>i < N\<close> "1.prems" show ?thesis by (auto simp: nth_list_update)
    qed
    finally show ?thesis .
  next
    case False
    then show ?thesis
      using "1.prems" by (subst zoomInterpolated_loop.simps) auto
  qed
qed

lemma zoomInterpolatedAttributeValue_append:
  assumes "length mx = length mn"
  shows "zoomInterpolatedAttributeValue mn mx = mn @ mx"
proof (rule nth_equalityI)
  show "length (zoomInterpolatedAttributeValue mn mx) = length (mn @ mx)"
    using assms by (simp add: zoomInterpolatedAttributeValue_def Let_def zoomInterpolated_loop_length)
next
  fix k
  assume "k < length (zoomInterpolatedAttributeValue mn mx)"
  then have k: "k < length mn * 2"
    by (simp add: zoomInterpolatedAttributeValue_def Let_def zoomInterpolated_loop_length)
  then show "zoomInterpolatedAttributeValue mn mx ! k = (mn @ mx) ! k"
    by (simp add: zoomInterpolatedAttributeValue_def Let_def zoomInterpolated_loop_nth nth_append)
qed

lemma halves_of_duplicate: "min_half (v @ v) = v \<and> max_half (v @ v) = v"
  by (simp add: min_half_def max_half_def)

lemma constant_binding_duplicates:
  "ConstantBinding (zoomInterpolatedAttributeValue v v) = ConstantBinding (v @ v)"
  by (simp add: zoomInterpolatedAttributeValue_append)

subsection \<open>One call on a binder\<close>

lemma Source_populateVertexVector_eq:
  assumes "attributeValue (SourceFunction_evaluate (src_function s) feature (src_defaultValue s)) = Inr enc"
  shows "Source_populateVertexVector ops s feature n stats =
           Inr (s\<lparr>src_evaluated := src_evaluated s @ [feature],
                  src_vertexVector := src_vertexVector s
                     @ replicate (n - length (src_vertexVector s)) enc\<rparr>,
                add_value ops
                  (SourceFunction_evaluate (src_function s) feature (src_defaultValue s)) stats)"
  using assms by (simp add: Source_populateVertexVector_def Let_def emplace_loop_replicate)

lemma Source_populateVertexVector_Inr:
  assumes "Source_populateVertexVector ops s feature n stats = Inr (s', stats')"
  shows "\<exists>enc. src_vertexVector s' = src_vertexVector s @ replicate (n - length (src_vertexVector s)) enc
           \<and> src_vertexBuffer s' = src_vertexBuffer s"
  using assms
  by (auto simp: Source_populateVertexVector_def Let_def emplace_loop_replicate split: sum.splits)

lemma Composite_populateVertexVector_eq:
  assumes "evaluate (cmp_function c) (snd (cmp_coveringRanges c)) feature (cmp_defaultValue c) = rg"
    and "attributeValue (range_min rg) = Inr vmin"
    and "attributeValue (range_max rg) = Inr vmax"
  shows "Composite_populateVertexVector ops c feature n stats =
           Inr (c\<lparr>cmp_evaluated := cmp_evaluated c @ [feature],
                  cmp_vertexVector := cmp_vertexVector c
                     @ replicate (n - length (cmp_vertexVector c))
                         (zoomInterpolatedAttributeValue vmin vmax)\<rparr>,
                add_range ops rg stats)"
  using assms by (simp add: Composite_populateVertexVector_def Let_def emplace_loop_replicate)

lemma Composite_populateVertexVector_Inr:
  assumes "Composite_populateVertexVector ops c feature n stats = Inr (c', stats')"
  shows "\<exists>enc. cmp_vertexVector c' = cmp_vertexVector c @ replicate (n - length (cmp_vertexVector c)) enc
           \<and> cmp_vertexBuffer c' = cmp_vertexBuffer c
           \<and> cmp_coveringRanges c' = cmp_coveringRanges c"
  using assms
  by (auto simp: Composite_populateVertexVector_def Let_def emplace_loop_replicate split: sum.splits)

lemma populateVertexVector_Inr:
  assumes "populateVertexVector ops binder feature n stats = Inr (binder', stats')"
  shows "isConstantBinder binder' = isConstantBinder binder
           \<and> vertexBuffer binder' = vertexBuffer binder
           \<and> (\<exists>enc. vertexVector binder' =
                  vertexVector binder @ replicate (n - length (vertexVector binder)) enc
                  \<or> isConstantBinder binder)"
proof (cases "binder")
  case (ConstantBinder c)
  then show ?thesis using assms by (auto simp: Constant_populateVertexVector_def)
next
  case (SourceBinder s)
  then obtain s' where s': "Source_populateVertexVector ops s feature n stats = Inr (s', stats')"
      "binder' = SourceBinder s'"
    using assms by (cases "Source_populateVertexVector ops s feature n stats") auto
  show ?thesis
    using Source_populateVertexVector_Inr [OF s'(1)] s'(2) SourceBinder by auto
next
  case (CompositeBinder c)
  then obtain c' where c': "Composite_populateVertexVector ops c feature n stats = Inr (c', stats')"
      "binder' = CompositeBinder c'"
    using assms by (cases "Composite_populateVertexVector ops c feature n stats") auto
  show ?thesis
    using Composite_populateVertexVector_Inr [OF c'(1)] c'(2) CompositeBinder by auto
qed

lemma upload_Inr:
  assumes "upload context binder = Inr binder'"
  shows "isConstantBinder binder' = isConstantBinder binder
           \<and> (\<not> isConstantBinder binder \<longrightarrow>
                (\<exists>buffer rest. createVertexBuffer context (vertexVector binder) = Some (buffer, rest)
                   \<and> vertexBuffer binder' = Some buffer \<and> vertexVector binder' = rest))"
  using assms
  by (cases "binder")
     (auto simp: Constant_upload_def Source_upload_def Composite_upload_def split: option.splits)

lemma constantOr_simps:
  "constantOr (Constant c) t = c"
  "\<not> isConstant v \<Longrightarrow> constantOr v t = t"
  by (cases v; simp add: constantOr_def)+

lemmas run_simps = Source_populateVertexVector_def Composite_populateVertexVector_def
  Source_upload_def Composite_upload_def SourceFunction_evaluate_def
  Let_def emplace_loop_replicate zoomInterpolatedAttributeValue_append
  example_composite_def logging_statistics_def example_context_def attributeValue_float_def

subsection \<open>Constant and source-function binders do not blend\<close>

text \<open>
  C7. For every zoom the interpolation factor of a constant binder and of a
  source-function binder is 0. The attribute binding of a constant binder is a constant
  binding whose min half and max half are the same encoded value: the encoding of the
  constant the caller passes as current value if there is one, and of the stored
  constant otherwise.
\<close>

theorem constant_and_source_supply_no_blend:
  "interpolationFactor (ConstantBinder cb) z = 0
   \<and> interpolationFactor (SourceBinder sb) z = 0
   \<and> (attributeValue (constantOr currentValue (const_constant cb)) = Inr enc \<longrightarrow>
        attributeBinding (ConstantBinder cb) currentValue = Inr (ConstantBinding (enc @ enc))
        \<and> min_half (enc @ enc) = enc \<and> max_half (enc @ enc) = enc)
   \<and> constantOr (Constant override) (const_constant cb) = override
   \<and> (\<not> isConstant currentValue \<longrightarrow>
        constantOr currentValue (const_constant cb) = const_constant cb)"
  by (simp add: Constant_interpolationFactor_def Source_interpolationFactor_def
      Constant_attributeBinding_def constant_binding_duplicates halves_of_duplicate
      constantOr_simps)

theorem constant_and_source_supply_no_blend_witness:
  "interpolationFactor
     (ConstantBinder \<lparr>const_constant = Scalar 3\<rparr> :: (nat, float, float list list) PaintPropertyBinder)
     12 = 0
   \<and> interpolationFactor
     (SourceBinder \<lparr>src_function = example_source, src_defaultValue = Scalar 2,
        src_vertexVector = [], src_vertexBuffer = None, src_dimensions = 1,
        src_evaluated = []\<rparr> :: (nat, float, float list list) PaintPropertyBinder)
     12 = 0
   \<and> attributeBinding
     (ConstantBinder \<lparr>const_constant = Scalar 3\<rparr> :: (nat, float, float list list) PaintPropertyBinder)
     (Source example_source) = Inr (ConstantBinding [3, 3])
   \<and> min_half [3, 3] = [3] \<and> max_half [3, 3] = [3]"
  using constant_and_source_supply_no_blend [where cb = "\<lparr>const_constant = Scalar 3\<rparr>" and currentValue = "Source example_source"
            and enc = "[3]" and z = 12 and override = "Scalar 5"
            and sb = "\<lparr>src_function = example_source, src_defaultValue = Scalar 2,
              src_vertexVector = [], src_vertexBuffer = None, src_dimensions = 1,
              src_evaluated = []\<rparr>"]
  by (simp add: constantOr_def attributeValue_float_def)

subsection \<open>The constant override of source and composite binders\<close>

text \<open>
  C5. For a source-function or composite-function binder in any state, a current value
  that is a constant gives a constant binding whose min and max halves both are the
  encoded constant, whether or not a buffer has been built; any other current value
  gives a variable binding that refers to the buffer handle \<^verbatim>\<open>upload\<close> stored, at the base
  width for a source function and at the doubled width for a composite function. Right
  after an upload that handle is the buffer the graphics context created from the
  vertex sequence.
\<close>

theorem attributeBinding_override_short_circuit:
  fixes sb :: "('f, 'buf) SourceFunctionPaintPropertyBinder"
    and cb :: "('f, 'stops, 'buf) CompositeFunctionPaintPropertyBinder"
    and currentValue :: "('f, 'stops) PossiblyEvaluatedPropertyValue"
  shows
  "(attributeValue c = Inr enc \<longrightarrow>
      attributeBinding (SourceBinder sb :: ('f, 'stops, 'buf) PaintPropertyBinder) (Constant c)
        = Inr (ConstantBinding (enc @ enc))
      \<and> attributeBinding (CompositeBinder cb) (Constant c) = Inr (ConstantBinding (enc @ enc))
      \<and> min_half (enc @ enc) = enc \<and> max_half (enc @ enc) = enc)
   \<and> (\<not> isConstant currentValue \<and> src_vertexBuffer sb = Some buffer \<longrightarrow>
        attributeBinding (SourceBinder sb) currentValue
          = Inr (VariableBinding buffer 0 (src_dimensions sb)))
   \<and> (\<not> isConstant currentValue \<and> cmp_vertexBuffer cb = Some buffer \<longrightarrow>
        attributeBinding (CompositeBinder cb) currentValue
          = Inr (VariableBinding buffer 0 (cmp_dimensions cb * 2)))
   \<and> (\<not> isConstant currentValue \<and> upload ctx (SourceBinder sb) = Inr uploaded \<longrightarrow>
        (\<exists>created rest. createVertexBuffer ctx (src_vertexVector sb) = Some (created, rest)
           \<and> attributeBinding uploaded currentValue
               = Inr (VariableBinding created 0 (src_dimensions sb))))
   \<and> (\<not> isConstant currentValue \<and> upload ctx (CompositeBinder cb) = Inr uploaded \<longrightarrow>
        (\<exists>created rest. createVertexBuffer ctx (cmp_vertexVector cb) = Some (created, rest)
           \<and> attributeBinding uploaded currentValue
               = Inr (VariableBinding created 0 (cmp_dimensions cb * 2))))"
  by (auto simp: Source_attributeBinding_def Composite_attributeBinding_def
      Source_upload_def Composite_upload_def
      constant_binding_duplicates halves_of_duplicate split: option.splits)


theorem attributeBinding_override_short_circuit_witness:
  "attributeBinding
     (SourceBinder \<lparr>src_function = example_source, src_defaultValue = Scalar 2,
        src_vertexVector = [], src_vertexBuffer = Some [[4], [4]], src_dimensions = 1,
        src_evaluated = [4]\<rparr> :: (nat, float, float list list) PaintPropertyBinder)
     (Constant (Scalar 5)) = Inr (ConstantBinding [5, 5])
   \<and> attributeBinding
     (SourceBinder \<lparr>src_function = example_source, src_defaultValue = Scalar 2,
        src_vertexVector = [], src_vertexBuffer = Some [[4], [4]], src_dimensions = 1,
        src_evaluated = [4]\<rparr> :: (nat, float, float list list) PaintPropertyBinder)
     (Source example_source) = Inr (VariableBinding [[4], [4]] 0 1)
   \<and> attributeBinding
     (CompositeBinder \<lparr>cmp_function = example_composite, cmp_defaultValue = Scalar 2,
        cmp_coveringRanges = stops_coveringRanges 12, cmp_vertexVector = [],
        cmp_vertexBuffer = Some [[4], [4]], cmp_dimensions = 1,
        cmp_evaluated = [4]\<rparr> :: (nat, float, float list list) PaintPropertyBinder)
     (Composite example_composite) = Inr (VariableBinding [[4], [4]] 0 2)
   \<and> upload example_context
     (SourceBinder \<lparr>src_function = example_source, src_defaultValue = Scalar 2,
        src_vertexVector = [[4], [4]], src_vertexBuffer = None, src_dimensions = 1,
        src_evaluated = [4]\<rparr> :: (nat, float, float list list) PaintPropertyBinder)
     = Inr (SourceBinder \<lparr>src_function = example_source, src_defaultValue = Scalar 2,
        src_vertexVector = [], src_vertexBuffer = Some [[4], [4]], src_dimensions = 1,
        src_evaluated = [4]\<rparr>)
   \<and> upload example_context
     (CompositeBinder \<lparr>cmp_function = example_composite, cmp_defaultValue = Scalar 2,
        cmp_coveringRanges = stops_coveringRanges 12, cmp_vertexVector = [[1, 2]],
        cmp_vertexBuffer = None, cmp_dimensions = 1,
        cmp_evaluated = [4]\<rparr> :: (nat, float, float list list) PaintPropertyBinder)
     = Inr (CompositeBinder \<lparr>cmp_function = example_composite, cmp_defaultValue = Scalar 2,
        cmp_coveringRanges = stops_coveringRanges 12, cmp_vertexVector = [],
        cmp_vertexBuffer = Some [[1, 2]], cmp_dimensions = 1, cmp_evaluated = [4]\<rparr>)
   \<and> attributeBinding
     (CompositeBinder \<lparr>cmp_function = example_composite, cmp_defaultValue = Scalar 2,
        cmp_coveringRanges = stops_coveringRanges 12, cmp_vertexVector = [],
        cmp_vertexBuffer = Some [[1, 2]], cmp_dimensions = 1,
        cmp_evaluated = [4]\<rparr> :: (nat, float, float list list) PaintPropertyBinder)
     (Composite example_composite) = Inr (VariableBinding [[1, 2]] 0 2)"
proof -
  have up_source: "upload example_context
     (SourceBinder \<lparr>src_function = example_source, src_defaultValue = Scalar 2,
        src_vertexVector = [[4], [4]], src_vertexBuffer = None, src_dimensions = 1,
        src_evaluated = [4]\<rparr> :: (nat, float, float list list) PaintPropertyBinder)
     = Inr (SourceBinder \<lparr>src_function = example_source, src_defaultValue = Scalar 2,
        src_vertexVector = [], src_vertexBuffer = Some [[4], [4]], src_dimensions = 1,
        src_evaluated = [4]\<rparr>)"
    by (simp add: Source_upload_def example_context_def)
  have up_composite: "upload example_context
     (CompositeBinder \<lparr>cmp_function = example_composite, cmp_defaultValue = Scalar 2,
        cmp_coveringRanges = stops_coveringRanges 12, cmp_vertexVector = [[1, 2]],
        cmp_vertexBuffer = None, cmp_dimensions = 1,
        cmp_evaluated = [4]\<rparr> :: (nat, float, float list list) PaintPropertyBinder)
     = Inr (CompositeBinder \<lparr>cmp_function = example_composite, cmp_defaultValue = Scalar 2,
        cmp_coveringRanges = stops_coveringRanges 12, cmp_vertexVector = [],
        cmp_vertexBuffer = Some [[1, 2]], cmp_dimensions = 1, cmp_evaluated = [4]\<rparr>)"
    by (simp add: Composite_upload_def example_context_def)
  have bound: "attributeBinding
     (SourceBinder \<lparr>src_function = example_source, src_defaultValue = Scalar 2,
        src_vertexVector = [], src_vertexBuffer = Some [[4], [4]], src_dimensions = 1,
        src_evaluated = [4]\<rparr> :: (nat, float, float list list) PaintPropertyBinder)
     (Constant (Scalar 5)) = Inr (ConstantBinding [5, 5])
   \<and> attributeBinding
     (SourceBinder \<lparr>src_function = example_source, src_defaultValue = Scalar 2,
        src_vertexVector = [], src_vertexBuffer = Some [[4], [4]], src_dimensions = 1,
        src_evaluated = [4]\<rparr> :: (nat, float, float list list) PaintPropertyBinder)
     (Source example_source) = Inr (VariableBinding [[4], [4]] 0 1)
   \<and> attributeBinding
     (CompositeBinder \<lparr>cmp_function = example_composite, cmp_defaultValue = Scalar 2,
        cmp_coveringRanges = stops_coveringRanges 12, cmp_vertexVector = [],
        cmp_vertexBuffer = Some [[4], [4]], cmp_dimensions = 1,
        cmp_evaluated = [4]\<rparr> :: (nat, float, float list list) PaintPropertyBinder)
     (Composite example_composite) = Inr (VariableBinding [[4], [4]] 0 2)"
    using attributeBinding_override_short_circuit [where c = "Scalar 5" and enc = "[5]" and currentValue = "Source example_source"
      and buffer = "[[4], [4]] :: float list list" and ctx = example_context
      and uploaded = "SourceBinder \<lparr>src_function = example_source, src_defaultValue = Scalar 2,
        src_vertexVector = [], src_vertexBuffer = Some [[4], [4]], src_dimensions = 1,
        src_evaluated = [4]\<rparr>"
      and sb = "\<lparr>src_function = example_source, src_defaultValue = Scalar 2,
        src_vertexVector = [], src_vertexBuffer = Some [[4], [4]], src_dimensions = 1,
        src_evaluated = [4]\<rparr>"
      and cb = "\<lparr>cmp_function = example_composite, cmp_defaultValue = Scalar 2,
        cmp_coveringRanges = stops_coveringRanges 12, cmp_vertexVector = [],
        cmp_vertexBuffer = Some [[4], [4]], cmp_dimensions = 1, cmp_evaluated = [4]\<rparr>"]
      attributeBinding_override_short_circuit [where c = "Scalar 5" and enc = "[5]" and currentValue = "Composite example_composite"
      and buffer = "[[4], [4]] :: float list list" and ctx = example_context
      and uploaded = "SourceBinder \<lparr>src_function = example_source, src_defaultValue = Scalar 2,
        src_vertexVector = [], src_vertexBuffer = Some [[4], [4]], src_dimensions = 1,
        src_evaluated = [4]\<rparr>"
      and sb = "\<lparr>src_function = example_source, src_defaultValue = Scalar 2,
        src_vertexVector = [], src_vertexBuffer = Some [[4], [4]], src_dimensions = 1,
        src_evaluated = [4]\<rparr>"
      and cb = "\<lparr>cmp_function = example_composite, cmp_defaultValue = Scalar 2,
        cmp_coveringRanges = stops_coveringRanges 12, cmp_vertexVector = [],
        cmp_vertexBuffer = Some [[4], [4]], cmp_dimensions = 1, cmp_evaluated = [4]\<rparr>"]
    by (simp add: attributeValue_float_def)
  have after_upload: "attributeBinding
     (CompositeBinder \<lparr>cmp_function = example_composite, cmp_defaultValue = Scalar 2,
        cmp_coveringRanges = stops_coveringRanges 12, cmp_vertexVector = [],
        cmp_vertexBuffer = Some [[1, 2]], cmp_dimensions = 1,
        cmp_evaluated = [4]\<rparr> :: (nat, float, float list list) PaintPropertyBinder)
     (Composite example_composite) = Inr (VariableBinding [[1, 2]] 0 2)"
    using up_composite
      attributeBinding_override_short_circuit [where currentValue = "Composite example_composite" and ctx = example_context
      and c = "Scalar 5" and enc = "[5]" and buffer = "[[1, 2]] :: float list list"
      and uploaded = "CompositeBinder \<lparr>cmp_function = example_composite,
        cmp_defaultValue = Scalar 2,
        cmp_coveringRanges = stops_coveringRanges 12, cmp_vertexVector = [],
        cmp_vertexBuffer = Some [[1, 2]], cmp_dimensions = 1, cmp_evaluated = [4]\<rparr>"
      and sb = "\<lparr>src_function = example_source, src_defaultValue = Scalar 2,
        src_vertexVector = [], src_vertexBuffer = Some [[4], [4]], src_dimensions = 1,
        src_evaluated = [4]\<rparr>"
      and cb = "\<lparr>cmp_function = example_composite, cmp_defaultValue = Scalar 2,
        cmp_coveringRanges = stops_coveringRanges 12, cmp_vertexVector = [[1, 2]],
        cmp_vertexBuffer = None, cmp_dimensions = 1, cmp_evaluated = [4]\<rparr>"]
    by (simp add: example_context_def)
  show ?thesis
    using bound by (intro conjI up_source up_composite after_upload) simp_all
qed

subsection \<open>Populating a source-function binder\<close>

text \<open>
  C8. One call of \<^verbatim>\<open>populateVertexVector\<close> on a source-function binder evaluates the
  function once on the feature, the value being the default value when the feature
  has no data; it adds that value to the statistics and appends copies of its encoding
  until the vertex sequence has the target length. The call does not fail for missing
  data, and the vertices already present are kept.
\<close>

theorem Source_populateVertexVector_result:
  assumes "v = (case src_function s feature of None \<Rightarrow> src_defaultValue s | Some x \<Rightarrow> x)"
    and "attributeValue v = Inr enc"
  shows "populateVertexVector ops (SourceBinder s) feature targetLength stats =
           Inr (SourceBinder
                  (s\<lparr>src_evaluated := src_evaluated s @ [feature],
                     src_vertexVector := src_vertexVector s
                        @ replicate (targetLength - length (src_vertexVector s)) enc\<rparr>),
                add_value ops v stats)"
proof -
  have v: "SourceFunction_evaluate (src_function s) feature (src_defaultValue s) = v"
    using assms(1) by (simp add: SourceFunction_evaluate_def split: option.splits)
  show ?thesis
    using Source_populateVertexVector_eq [of s feature enc ops targetLength stats] assms(2)
    by (simp add: v)
qed

theorem Source_populateVertexVector_result_witness:
  "populateVertexVector logging_statistics
     (SourceBinder \<lparr>src_function = example_source, src_defaultValue = Scalar 2,
        src_vertexVector = [[4]], src_vertexBuffer = None, src_dimensions = 1,
        src_evaluated = [4]\<rparr> :: (nat, float, float list list) PaintPropertyBinder)
     0 3 [Scalar 4]
   = Inr (SourceBinder \<lparr>src_function = example_source, src_defaultValue = Scalar 2,
        src_vertexVector = [[4], [2], [2]], src_vertexBuffer = None, src_dimensions = 1,
        src_evaluated = [4, 0]\<rparr>, [Scalar 4, Scalar 2])"
  using Source_populateVertexVector_result [where s = "\<lparr>src_function = example_source, src_defaultValue = Scalar 2,
        src_vertexVector = [[4]], src_vertexBuffer = None, src_dimensions = 1,
        src_evaluated = [4]\<rparr>" and feature = 0 and v = "Scalar 2" and enc = "[2]"
        and ops = logging_statistics and targetLength = 3 and stats = "[Scalar 4]"]
  by (simp add: attributeValue_float_def logging_statistics_def numeral_3_eq_3)

subsection \<open>Statistics are updated even when no vertex is appended\<close>

text \<open>
  C9. A call of \<^verbatim>\<open>populateVertexVector\<close> on a source-function or composite-function
  binder whose target length does not exceed the current length of the vertex sequence
  still evaluates the feature and adds the result to the statistics; the vertex sequence
  stays as it is.
\<close>

theorem populateVertexVector_updates_statistics:
  fixes s :: "('f, 'buf) SourceFunctionPaintPropertyBinder"
    and c :: "('f, 'stops, 'buf) CompositeFunctionPaintPropertyBinder"
  shows
  "(attributeValue (SourceFunction_evaluate (src_function s) feature (src_defaultValue s)) = Inr enc
      \<and> targetLength \<le> length (src_vertexVector s) \<longrightarrow>
    populateVertexVector ops (SourceBinder s :: ('f, 'stops, 'buf) PaintPropertyBinder)
        feature targetLength stats =
      Inr (SourceBinder (s\<lparr>src_evaluated := src_evaluated s @ [feature]\<rparr>),
           add_value ops
             (SourceFunction_evaluate (src_function s) feature (src_defaultValue s)) stats))
   \<and> (attributeValue (range_min
          (evaluate (cmp_function c) (snd (cmp_coveringRanges c)) feature (cmp_defaultValue c)))
          = Inr vmin
      \<and> attributeValue (range_max
          (evaluate (cmp_function c) (snd (cmp_coveringRanges c)) feature (cmp_defaultValue c)))
          = Inr vmax
      \<and> targetLength \<le> length (cmp_vertexVector c) \<longrightarrow>
    populateVertexVector ops (CompositeBinder c) feature targetLength stats =
      Inr (CompositeBinder (c\<lparr>cmp_evaluated := cmp_evaluated c @ [feature]\<rparr>),
           add_range ops
             (evaluate (cmp_function c) (snd (cmp_coveringRanges c)) feature (cmp_defaultValue c))
             stats))"
proof (intro conjI impI)
  assume "attributeValue (SourceFunction_evaluate (src_function s) feature (src_defaultValue s))
            = Inr enc \<and> targetLength \<le> length (src_vertexVector s)"
  then show "populateVertexVector ops (SourceBinder s :: ('f, 'stops, 'buf) PaintPropertyBinder)
        feature targetLength stats =
      Inr (SourceBinder (s\<lparr>src_evaluated := src_evaluated s @ [feature]\<rparr>),
           add_value ops
             (SourceFunction_evaluate (src_function s) feature (src_defaultValue s)) stats)"
    using Source_populateVertexVector_eq [of s feature enc ops targetLength stats] by simp
next
  let ?rg = "evaluate (cmp_function c) (snd (cmp_coveringRanges c)) feature (cmp_defaultValue c)"
  assume "attributeValue (range_min ?rg) = Inr vmin \<and> attributeValue (range_max ?rg) = Inr vmax
            \<and> targetLength \<le> length (cmp_vertexVector c)"
  then show "populateVertexVector ops (CompositeBinder c) feature targetLength stats =
      Inr (CompositeBinder (c\<lparr>cmp_evaluated := cmp_evaluated c @ [feature]\<rparr>),
           add_range ops ?rg stats)"
    using Composite_populateVertexVector_eq [of c feature ?rg vmin vmax ops targetLength stats]
    by simp
qed

theorem populateVertexVector_updates_statistics_witness:
  "populateVertexVector logging_statistics
     (SourceBinder \<lparr>src_function = example_source, src_defaultValue = Scalar 2,
        src_vertexVector = [[4], [4]], src_vertexBuffer = None, src_dimensions = 1,
        src_evaluated = [4]\<rparr> :: (nat, float, float list list) PaintPropertyBinder)
     3 1 [Scalar 4]
   = Inr (SourceBinder \<lparr>src_function = example_source, src_defaultValue = Scalar 2,
        src_vertexVector = [[4], [4]], src_vertexBuffer = None, src_dimensions = 1,
        src_evaluated = [4, 3]\<rparr>, [Scalar 4, Scalar 3])
   \<and> populateVertexVector logging_statistics
     (CompositeBinder \<lparr>cmp_function = example_composite, cmp_defaultValue = Scalar 0,
        cmp_coveringRanges = stops_coveringRanges 12, cmp_vertexVector = [[10, 14]],
        cmp_vertexBuffer = None, cmp_dimensions = 1, cmp_evaluated = [1]\<rparr>
        :: (nat, float, float list list) PaintPropertyBinder)
     3 1 [Scalar 4]
   = Inr (CompositeBinder \<lparr>cmp_function = example_composite, cmp_defaultValue = Scalar 0,
        cmp_coveringRanges = stops_coveringRanges 12, cmp_vertexVector = [[10, 14]],
        cmp_vertexBuffer = None, cmp_dimensions = 1, cmp_evaluated = [1, 3]\<rparr>,
        [Scalar 4, Scalar 30, Scalar 42])"
  using populateVertexVector_updates_statistics [where s = "\<lparr>src_function = example_source, src_defaultValue = Scalar 2,
        src_vertexVector = [[4], [4]], src_vertexBuffer = None :: float list list option,
        src_dimensions = 1, src_evaluated = [4]\<rparr>"
      and c = "\<lparr>cmp_function = example_composite, cmp_defaultValue = Scalar 0,
        cmp_coveringRanges = stops_coveringRanges 12, cmp_vertexVector = [[10, 14]],
        cmp_vertexBuffer = None, cmp_dimensions = 1, cmp_evaluated = [1]\<rparr>"
      and feature = 3 and targetLength = 1 and enc = "[3]" and vmin = "[30]" and vmax = "[42]"
      and ops = logging_statistics and stats = "[Scalar 4]"]
  by (simp add: SourceFunction_evaluate_def attributeValue_float_def example_composite_def
      logging_statistics_def)

subsection \<open>Sequences of calls\<close>

lemma perform_cases:
  assumes "perform ops context (bnd, stats) call = Inr (bnd', stats')"
  obtains (Populate) feature n where "call = PopulateVertexVector feature n"
      "populateVertexVector ops bnd feature n stats = Inr (bnd', stats')"
    | (Uploaded) "call = Upload" "upload context bnd = Inr bnd'" "stats' = stats"
proof (cases call)
  case (PopulateVertexVector feature n)
  then show ?thesis using assms Populate by simp
next
  case Upload
  then have "upload context bnd = Inr bnd' \<and> stats' = stats"
    using assms by (cases "upload context bnd") auto
  then show ?thesis using Upload Uploaded by simp
qed

lemma perform_Inr:
  assumes "perform ops context (bnd, stats) call = Inr (bnd', stats')"
  shows "isConstantBinder bnd' = isConstantBinder bnd"
    and "call \<noteq> Upload \<Longrightarrow> vertexBuffer bnd' = vertexBuffer bnd"
    and "call = Upload \<Longrightarrow> \<not> isConstantBinder bnd \<Longrightarrow> vertexBuffer bnd' \<noteq> None"
    and "vertexBuffer bnd \<noteq> None \<Longrightarrow> vertexBuffer bnd' \<noteq> None"
proof -
  show "isConstantBinder bnd' = isConstantBinder bnd"
    using assms
  proof (cases rule: perform_cases)
    case (Populate feature n)
    then show ?thesis using populateVertexVector_Inr [OF Populate(2)] by simp
  next
    case Uploaded
    then show ?thesis using upload_Inr [OF Uploaded(2)] by simp
  qed
  show "call \<noteq> Upload \<Longrightarrow> vertexBuffer bnd' = vertexBuffer bnd"
    using assms
  proof (cases rule: perform_cases)
    case (Populate feature n)
    then show ?thesis using populateVertexVector_Inr [OF Populate(2)] by simp
  next
    case Uploaded
    assume "call \<noteq> Upload"
    then show ?thesis using Uploaded by simp
  qed
  show up: "call = Upload \<Longrightarrow> \<not> isConstantBinder bnd \<Longrightarrow> vertexBuffer bnd' \<noteq> None"
    using assms
  proof (cases rule: perform_cases)
    case (Populate feature n)
    assume "call = Upload"
    then show ?thesis using Populate by simp
  next
    case Uploaded
    assume "\<not> isConstantBinder bnd"
    then show ?thesis using upload_Inr [OF Uploaded(2)] by auto
  qed
  show "vertexBuffer bnd \<noteq> None \<Longrightarrow> vertexBuffer bnd' \<noteq> None"
    using assms
  proof (cases rule: perform_cases)
    case (Populate feature n)
    assume "vertexBuffer bnd \<noteq> None"
    then show ?thesis using populateVertexVector_Inr [OF Populate(2)] by simp
  next
    case Uploaded
    assume "vertexBuffer bnd \<noteq> None"
    then have "\<not> isConstantBinder bnd" by (cases bnd) auto
    then show ?thesis using up Uploaded by simp
  qed
qed

lemma perform_all_vertexBuffer:
  assumes "perform_all ops context (bnd, stats) calls = Inr (bnd', stats')"
    and "\<not> isConstantBinder bnd"
  shows "(Upload \<notin> set calls \<longrightarrow> vertexBuffer bnd' = vertexBuffer bnd)
         \<and> (Upload \<in> set calls \<or> vertexBuffer bnd \<noteq> None \<longrightarrow> vertexBuffer bnd' \<noteq> None)
         \<and> \<not> isConstantBinder bnd'"
  using assms
proof (induction calls arbitrary: bnd stats)
  case Nil
  then show ?case by simp
next
  case (Cons call calls)
  from Cons.prems(1) obtain bnd1 stats1 where
    step: "perform ops context (bnd, stats) call = Inr (bnd1, stats1)"
    and rest: "perform_all ops context (bnd1, stats1) calls = Inr (bnd', stats')"
    by (cases "perform ops context (bnd, stats) call") auto
  have k1: "\<not> isConstantBinder bnd1"
    using perform_Inr(1) [OF step] Cons.prems(2) by simp
  note ih = Cons.IH [OF rest k1]
  show ?case
  proof (intro conjI impI)
    assume "Upload \<notin> set (call # calls)"
    then show "vertexBuffer bnd' = vertexBuffer bnd"
      using ih perform_Inr(2) [OF step] by auto
  next
    assume a: "Upload \<in> set (call # calls) \<or> vertexBuffer bnd \<noteq> None"
    have "Upload \<in> set calls \<or> vertexBuffer bnd1 \<noteq> None"
      using a perform_Inr(3) [OF step _ Cons.prems(2)] perform_Inr(4) [OF step] by auto
    then show "vertexBuffer bnd' \<noteq> None" using ih by blast
  next
    show "\<not> isConstantBinder bnd'" using ih by simp
  qed
qed

lemma attributeBinding_variable:
  assumes "\<not> isConstantBinder bnd" "\<not> isConstant currentValue"
  shows "attributeBinding bnd currentValue =
           (case vertexBuffer bnd of
              None \<Rightarrow> Inl EmptyOptional
            | Some buffer \<Rightarrow>
                Inr (VariableBinding buffer 0
                  (case bnd of SourceBinder s \<Rightarrow> src_dimensions s
                   | CompositeBinder c \<Rightarrow> cmp_dimensions c * 2
                   | ConstantBinder c \<Rightarrow> 0)))"
  using assms
  by (cases bnd)
     (auto simp: Source_attributeBinding_def Composite_attributeBinding_def split: option.splits)

lemma create_fresh:
  "isConstantBinder (create dims v zoom dflt) = isConstant v"
  "vertexBuffer (create dims v zoom dflt) = None"
  "vertexVector (create dims v zoom dflt) = []"
  by (cases v; simp)+

lemma populate_calls_growth:
  assumes "perform_all ops context (bnd, stats) (map (case_prod PopulateVertexVector) calls)
             = Inr (bnd', stats')"
    and "\<not> isConstantBinder bnd"
  shows "length (vertexVector bnd') = fold max (map snd calls) (length (vertexVector bnd))
         \<and> take (length (vertexVector bnd)) (vertexVector bnd') = vertexVector bnd
         \<and> \<not> isConstantBinder bnd'"
  using assms
proof (induction calls arbitrary: bnd stats)
  case Nil
  then show ?case by simp
next
  case (Cons call calls)
  obtain feature n where call: "call = (feature, n)" by (cases call)
  from Cons.prems(1) obtain bnd1 stats1 where
    step: "populateVertexVector ops bnd feature n stats = Inr (bnd1, stats1)"
    and rest: "perform_all ops context (bnd1, stats1) (map (case_prod PopulateVertexVector) calls)
                 = Inr (bnd', stats')"
    unfolding call
    by (cases "populateVertexVector ops bnd feature n stats") auto
  from populateVertexVector_Inr [OF step] Cons.prems(2) obtain enc where
    k1: "\<not> isConstantBinder bnd1"
    and vv: "vertexVector bnd1 = vertexVector bnd @ replicate (n - length (vertexVector bnd)) enc"
    by auto
  have len1: "length (vertexVector bnd1) = max n (length (vertexVector bnd))"
    using vv by simp
  have le: "length (vertexVector bnd) \<le> length (vertexVector bnd1)"
    using len1 by simp
  note ih = Cons.IH [OF rest k1]
  have "take (length (vertexVector bnd)) (vertexVector bnd')
          = take (length (vertexVector bnd)) (take (length (vertexVector bnd1)) (vertexVector bnd'))"
    using le by (simp add: min_def)
  also have "\<dots> = take (length (vertexVector bnd)) (vertexVector bnd1)"
    using ih by simp
  also have "\<dots> = vertexVector bnd"
    using vv by simp
  finally have prefix: "take (length (vertexVector bnd)) (vertexVector bnd') = vertexVector bnd" .
  show ?case
    using ih prefix len1 by (simp add: call)
qed

lemma perform_composite:
  assumes "perform ops context (CompositeBinder c, stats) call = Inr (bnd', stats')"
  shows "\<exists>c'. bnd' = CompositeBinder c' \<and> cmp_coveringRanges c' = cmp_coveringRanges c"
  using assms
proof (cases rule: perform_cases)
  case (Populate feature n)
  then obtain c' where c': "Composite_populateVertexVector ops c feature n stats = Inr (c', stats')"
      "bnd' = CompositeBinder c'"
    by (cases "Composite_populateVertexVector ops c feature n stats") auto
  show ?thesis
    using Composite_populateVertexVector_Inr [OF c'(1)] c'(2) by simp
next
  case Uploaded
  then show ?thesis
    by (auto simp: Composite_upload_def split: option.splits)
qed

lemma perform_all_composite:
  assumes "perform_all ops context (CompositeBinder c, stats) calls = Inr (bnd', stats')"
  shows "\<exists>c'. bnd' = CompositeBinder c' \<and> cmp_coveringRanges c' = cmp_coveringRanges c"
  using assms
proof (induction calls arbitrary: c stats)
  case Nil
  then show ?case by auto
next
  case (Cons call calls)
  from Cons.prems obtain bnd1 stats1 where
    step: "perform ops context (CompositeBinder c, stats) call = Inr (bnd1, stats1)"
    and rest: "perform_all ops context (bnd1, stats1) calls = Inr (bnd', stats')"
    by (cases "perform ops context (CompositeBinder c, stats) call") auto
  from perform_composite [OF step] obtain cmp1 where
    cmp1: "bnd1 = CompositeBinder cmp1" "cmp_coveringRanges cmp1 = cmp_coveringRanges c"
    by blast
  show ?case
    using Cons.IH [OF rest [unfolded cmp1(1)]] cmp1(2) by simp
qed

text \<open>
  C10. On a source-function or composite-function binder the attribute binding for a
  current value that is not a constant dereferences the optional buffer handle. Only
  \<^verbatim>\<open>upload\<close> sets the handle: after a sequence of successful calls that contains an
  upload the binding is the variable binding over the stored buffer, and after a
  sequence without an upload the handle is empty and the dereference is undefined.
\<close>

theorem attributeBinding_defined_iff_uploaded:
  fixes currentValue :: "('f, 'stops) PossiblyEvaluatedPropertyValue"
    and bnd :: "('f, 'stops, 'buf) PaintPropertyBinder"
  assumes "\<not> isConstant v" "\<not> isConstant currentValue"
    and "perform_all ops context (create dims v zoom dflt, stats) calls = Inr (bnd, stats')"
  shows "(Upload \<in> set calls \<longrightarrow>
            (\<exists>buffer size. vertexBuffer bnd = Some buffer
               \<and> attributeBinding bnd currentValue = Inr (VariableBinding buffer 0 size)))
         \<and> (Upload \<notin> set calls \<longrightarrow>
            vertexBuffer bnd = None \<and> attributeBinding bnd currentValue = Inl EmptyOptional)"
proof -
  have fresh: "\<not> isConstantBinder (create dims v zoom dflt :: ('f, 'stops, 'buf) PaintPropertyBinder)"
    using assms(1) by (simp add: create_fresh)
  note vb = perform_all_vertexBuffer [OF assms(3) fresh]
  have k: "\<not> isConstantBinder bnd" using vb by simp
  show ?thesis
  proof (intro conjI impI)
    assume "Upload \<in> set calls"
    then obtain buffer where "vertexBuffer bnd = Some buffer" using vb by auto
    then show "\<exists>buffer size. vertexBuffer bnd = Some buffer
               \<and> attributeBinding bnd currentValue = Inr (VariableBinding buffer 0 size)"
      by (simp add: attributeBinding_variable [OF k assms(2)])
  next
    assume "Upload \<notin> set calls"
    then have "vertexBuffer bnd = None" using vb by (simp add: create_fresh)
    then show "vertexBuffer bnd = None" "attributeBinding bnd currentValue = Inl EmptyOptional"
      by (simp_all add: attributeBinding_variable [OF k assms(2)])
  qed
qed

theorem attributeBinding_defined_iff_uploaded_witness:
  "perform_all logging_statistics example_context
     (create 1 (Source example_source) 12 (Scalar 2), []) [PopulateVertexVector 1 2, Upload]
   = Inr (SourceBinder \<lparr>src_function = example_source, src_defaultValue = Scalar 2,
            src_vertexVector = [], src_vertexBuffer = Some [[1], [1]], src_dimensions = 1,
            src_evaluated = [1]\<rparr> :: (nat, float, float list list) PaintPropertyBinder,
          [Scalar 1])
   \<and> (\<exists>size. attributeBinding
        (SourceBinder \<lparr>src_function = example_source, src_defaultValue = Scalar 2,
            src_vertexVector = [], src_vertexBuffer = Some [[1], [1]], src_dimensions = 1,
            src_evaluated = [1]\<rparr> :: (nat, float, float list list) PaintPropertyBinder)
        (Source example_source) = Inr (VariableBinding [[1], [1]] 0 size))
   \<and> perform_all logging_statistics example_context
     (create 1 (Source example_source) 12 (Scalar 2), []) [PopulateVertexVector 1 2]
   = Inr (SourceBinder \<lparr>src_function = example_source, src_defaultValue = Scalar 2,
            src_vertexVector = [[1], [1]], src_vertexBuffer = None, src_dimensions = 1,
            src_evaluated = [1]\<rparr> :: (nat, float, float list list) PaintPropertyBinder,
          [Scalar 1])
   \<and> attributeBinding
        (SourceBinder \<lparr>src_function = example_source, src_defaultValue = Scalar 2,
            src_vertexVector = [[1], [1]], src_vertexBuffer = None, src_dimensions = 1,
            src_evaluated = [1]\<rparr> :: (nat, float, float list list) PaintPropertyBinder)
        (Source example_source) = Inl EmptyOptional"
proof -
  have uploaded: "perform_all logging_statistics example_context
     (create 1 (Source example_source) 12 (Scalar 2), []) [PopulateVertexVector 1 2, Upload]
   = Inr (SourceBinder \<lparr>src_function = example_source, src_defaultValue = Scalar 2,
            src_vertexVector = [], src_vertexBuffer = Some [[1], [1]], src_dimensions = 1,
            src_evaluated = [1]\<rparr> :: (nat, float, float list list) PaintPropertyBinder,
          [Scalar 1])"
    by (simp add: run_simps numeral_2_eq_2)
  have populated: "perform_all logging_statistics example_context
     (create 1 (Source example_source) 12 (Scalar 2), []) [PopulateVertexVector 1 2]
   = Inr (SourceBinder \<lparr>src_function = example_source, src_defaultValue = Scalar 2,
            src_vertexVector = [[1], [1]], src_vertexBuffer = None, src_dimensions = 1,
            src_evaluated = [1]\<rparr> :: (nat, float, float list list) PaintPropertyBinder,
          [Scalar 1])"
    by (simp add: run_simps numeral_2_eq_2)
  have nc: "\<not> isConstant (Source example_source :: (nat, float) PossiblyEvaluatedPropertyValue)"
    by simp
  have bound: "\<exists>size. attributeBinding
        (SourceBinder \<lparr>src_function = example_source, src_defaultValue = Scalar 2,
            src_vertexVector = [], src_vertexBuffer = Some [[1], [1]], src_dimensions = 1,
            src_evaluated = [1]\<rparr> :: (nat, float, float list list) PaintPropertyBinder)
        (Source example_source) = Inr (VariableBinding [[1], [1]] 0 size)"
    using attributeBinding_defined_iff_uploaded [OF nc nc uploaded] by simp
  have unbound: "attributeBinding
        (SourceBinder \<lparr>src_function = example_source, src_defaultValue = Scalar 2,
            src_vertexVector = [[1], [1]], src_vertexBuffer = None, src_dimensions = 1,
            src_evaluated = [1]\<rparr> :: (nat, float, float list list) PaintPropertyBinder)
        (Source example_source) = Inl EmptyOptional"
    using attributeBinding_defined_iff_uploaded [OF nc nc populated] by simp
  show ?thesis
    by (intro conjI uploaded bound populated unbound)
qed

lemma populateVertexVector_encodes:
  assumes "encodes bnd feature"
  shows "\<exists>bnd' stats'. populateVertexVector ops bnd feature n stats = Inr (bnd', stats')
           \<and> (\<forall>g. encodes bnd' g = encodes bnd g)"
proof (cases bnd)
  case (ConstantBinder c)
  then show ?thesis by (auto simp: Constant_populateVertexVector_def)
next
  case (SourceBinder s)
  then obtain enc where
    "attributeValue (SourceFunction_evaluate (src_function s) feature (src_defaultValue s)) = Inr enc"
    using assms
    by (cases "attributeValue (SourceFunction_evaluate (src_function s) feature (src_defaultValue s))")
       auto
  then show ?thesis
    using Source_populateVertexVector_eq [of s feature enc ops n stats] SourceBinder by simp
next
  case (CompositeBinder c)
  let ?rg = "evaluate (cmp_function c) (snd (cmp_coveringRanges c)) feature (cmp_defaultValue c)"
  obtain vmin vmax where
    "attributeValue (range_min ?rg) = Inr vmin" "attributeValue (range_max ?rg) = Inr vmax"
    using assms CompositeBinder
    by (cases "attributeValue (range_min ?rg)"; cases "attributeValue (range_max ?rg)") auto
  then show ?thesis
    using Composite_populateVertexVector_eq [of c feature ?rg vmin vmax ops n stats]
      CompositeBinder by simp
qed

lemma populate_calls_succeed:
  assumes "\<forall>(feature, n) \<in> set calls. encodes bnd feature"
  shows "\<exists>bnd' stats'.
           perform_all ops context (bnd, stats) (map (case_prod PopulateVertexVector) calls)
             = Inr (bnd', stats')
           \<and> (\<forall>g. encodes bnd' g = encodes bnd g)"
  using assms
proof (induction calls arbitrary: bnd stats)
  case Nil
  then show ?case by simp
next
  case (Cons call calls)
  obtain feature n where call: "call = (feature, n)" by (cases call)
  have "encodes bnd feature" using Cons.prems by (simp add: call)
  from populateVertexVector_encodes [OF this, of ops n stats] obtain bnd1 stats1 where
    step: "populateVertexVector ops bnd feature n stats = Inr (bnd1, stats1)"
    and same: "\<forall>g. encodes bnd1 g = encodes bnd g"
    by (elim exE conjE)
  have "\<forall>(feature, n) \<in> set calls. encodes bnd1 feature"
    using Cons.prems same by auto
  from Cons.IH [OF this, where stats = stats1] obtain bnd' stats' where
    "perform_all ops context (bnd1, stats1) (map (case_prod PopulateVertexVector) calls)
       = Inr (bnd', stats')"
    "\<forall>g. encodes bnd' g = encodes bnd1 g"
    by (elim exE conjE)
  then show ?case using step same by (simp add: call)
qed

text \<open>
  C6. Every sequence of \<^verbatim>\<open>populateVertexVector\<close> calls on a newly created source-function
  or composite-function binder, for features the binder encodes, runs to its end, and
  after it the length of the vertex sequence is the maximum of the target lengths seen
  so far (0 before the first call). Further calls never shorten the sequence and leave
  the vertices appended earlier unchanged.
\<close>

theorem vertexVector_length_is_max_target:
  fixes v :: "('f, 'stops) PossiblyEvaluatedPropertyValue"
  assumes "\<not> isConstant v"
    and "\<forall>(feature, n) \<in> set (calls1 @ calls2).
           encodes (create dims v zoom dflt :: ('f, 'stops, 'buf) PaintPropertyBinder) feature"
  shows "\<exists>(b1 :: ('f, 'stops, 'buf) PaintPropertyBinder) stats1 b2 stats2.
           perform_all ops context (create dims v zoom dflt, stats)
             (map (case_prod PopulateVertexVector) calls1) = Inr (b1, stats1)
         \<and> perform_all ops context (b1, stats1)
             (map (case_prod PopulateVertexVector) calls2) = Inr (b2, stats2)
         \<and> length (vertexVector b1) = Max (set (0 # map snd calls1))
         \<and> length (vertexVector b2) = Max (set (0 # map snd (calls1 @ calls2)))
         \<and> length (vertexVector b1) \<le> length (vertexVector b2)
         \<and> take (length (vertexVector b1)) (vertexVector b2) = vertexVector b1"
proof -
  let ?b0 = "create dims v zoom dflt :: ('f, 'stops, 'buf) PaintPropertyBinder"
  have fresh: "\<not> isConstantBinder ?b0" using assms(1) by (simp add: create_fresh)
  have e1: "\<forall>(feature, n) \<in> set calls1. encodes ?b0 feature" using assms(2) by auto
  from populate_calls_succeed [OF e1, of ops "context" stats] obtain b1 stats1 where
    run1: "perform_all ops context (?b0, stats) (map (case_prod PopulateVertexVector) calls1)
             = Inr (b1, stats1)"
    and same: "\<forall>g. encodes b1 g = encodes ?b0 g"
    by (elim exE conjE)
  have e2: "\<forall>(feature, n) \<in> set calls2. encodes b1 feature" using assms(2) same by auto
  from populate_calls_succeed [OF e2, of ops "context" stats1] obtain b2 stats2 where
    run2: "perform_all ops context (b1, stats1) (map (case_prod PopulateVertexVector) calls2)
             = Inr (b2, stats2)"
    by (elim exE conjE)
  note g1 = populate_calls_growth [OF run1 fresh]
  then have k1: "\<not> isConstantBinder b1" by simp
  note g2 = populate_calls_growth [OF run2 k1]
  have l1: "length (vertexVector b1) = fold max (map snd calls1) 0"
    using g1 by (simp add: create_fresh)
  have l2: "length (vertexVector b2) = fold max (map snd (calls1 @ calls2)) 0"
    using g2 l1 by simp
  have "length (take (length (vertexVector b1)) (vertexVector b2)) = length (vertexVector b1)"
    using g2 by simp
  then have le: "length (vertexVector b1) \<le> length (vertexVector b2)" by simp
  have props: "length (vertexVector b1) = Max (set (0 # map snd calls1))
         \<and> length (vertexVector b2) = Max (set (0 # map snd (calls1 @ calls2)))
         \<and> length (vertexVector b1) \<le> length (vertexVector b2)
         \<and> take (length (vertexVector b1)) (vertexVector b2) = vertexVector b1"
    using l1 l2 le g2 by (simp only: Max.set_eq_fold)
  show ?thesis
    by (rule exI [of _ b1], rule exI [of _ stats1], rule exI [of _ b2], rule exI [of _ stats2])
       (intro conjI run1 run2 conjunct1 [OF props] conjunct1 [OF conjunct2 [OF props]]
          conjunct1 [OF conjunct2 [OF conjunct2 [OF props]]]
          conjunct2 [OF conjunct2 [OF conjunct2 [OF props]]])
qed

theorem vertexVector_length_is_max_target_witness:
  "(\<exists>(b1 :: (nat, float, float list list) PaintPropertyBinder) stats1 b2 stats2.
      perform_all logging_statistics example_context
        (create 1 (Source example_source) 12 (Scalar 2), [])
        (map (case_prod PopulateVertexVector) [(1, 3), (2, 2)]) = Inr (b1, stats1)
    \<and> perform_all logging_statistics example_context (b1, stats1)
        (map (case_prod PopulateVertexVector) [(0, 5)]) = Inr (b2, stats2)
    \<and> length (vertexVector b1) = 3 \<and> length (vertexVector b2) = 5
    \<and> length (vertexVector b1) \<le> length (vertexVector b2)
    \<and> take (length (vertexVector b1)) (vertexVector b2) = vertexVector b1)
   \<and> (\<exists>(b1 :: (nat, float, float list list) PaintPropertyBinder) stats1 b2 stats2.
      perform_all logging_statistics example_context
        (create 1 (Composite example_composite) 12 (Scalar 0), [])
        (map (case_prod PopulateVertexVector) [(1, 2), (2, 1)]) = Inr (b1, stats1)
    \<and> perform_all logging_statistics example_context (b1, stats1)
        (map (case_prod PopulateVertexVector) [(3, 4)]) = Inr (b2, stats2)
    \<and> length (vertexVector b1) = 2 \<and> length (vertexVector b2) = 4
    \<and> length (vertexVector b1) \<le> length (vertexVector b2)
    \<and> take (length (vertexVector b1)) (vertexVector b2) = vertexVector b1)
   \<and> perform_all logging_statistics example_context
        (create 1 (Composite example_composite) 12 (Scalar 0), [])
        (map (case_prod PopulateVertexVector) [(1, 2), (2, 1), (3, 4)])
      = Inr (CompositeBinder \<lparr>cmp_function = example_composite, cmp_defaultValue = Scalar 0,
               cmp_coveringRanges = (\<lparr>range_min = 10, range_max = 14\<rparr>,
                                     \<lparr>range_min = 10, range_max = 14\<rparr>),
               cmp_vertexVector = [[10, 14], [10, 14], [30, 42], [30, 42]],
               cmp_vertexBuffer = None, cmp_dimensions = 1, cmp_evaluated = [1, 2, 3]\<rparr>
               :: (nat, float, float list list) PaintPropertyBinder,
             [Scalar 10, Scalar 14, Scalar 20, Scalar 28, Scalar 30, Scalar 42])"
proof -
  have m: "Max (set (0 # map snd [(1::nat, 3::nat), (2, 2)])) = 3"
    "Max (set (0 # map snd ([(1::nat, 3::nat), (2, 2)] @ [(0, 5)]))) = 5"
    "Max (set (0 # map snd [(1::nat, 2::nat), (2, 1)])) = 2"
    "Max (set (0 # map snd ([(1::nat, 2::nat), (2, 1)] @ [(3, 4)]))) = 4"
    by simp_all
  have src: "\<forall>(feature, n) \<in> set ([(1, 3), (2, 2)] @ [(0, 5)]).
      encodes (create 1 (Source example_source) 12 (Scalar 2)
                 :: (nat, float, float list list) PaintPropertyBinder) feature"
    by (simp add: SourceFunction_evaluate_def)
  have cmp: "\<forall>(feature, n) \<in> set ([(1, 2), (2, 1)] @ [(3, 4)]).
      encodes (create 1 (Composite example_composite) 12 (Scalar 0)
                 :: (nat, float, float list list) PaintPropertyBinder) feature"
    by (simp add: example_composite_def)
  have nc: "\<not> isConstant (Source example_source :: (nat, float) PossiblyEvaluatedPropertyValue)"
    "\<not> isConstant (Composite example_composite)"
    by simp_all
  have run: "perform_all logging_statistics example_context
        (create 1 (Composite example_composite) 12 (Scalar 0), [])
        (map (case_prod PopulateVertexVector) [(1, 2), (2, 1), (3, 4)])
      = Inr (CompositeBinder \<lparr>cmp_function = example_composite, cmp_defaultValue = Scalar 0,
               cmp_coveringRanges = (\<lparr>range_min = 10, range_max = 14\<rparr>,
                                     \<lparr>range_min = 10, range_max = 14\<rparr>),
               cmp_vertexVector = [[10, 14], [10, 14], [30, 42], [30, 42]],
               cmp_vertexBuffer = None, cmp_dimensions = 1, cmp_evaluated = [1, 2, 3]\<rparr>
               :: (nat, float, float list list) PaintPropertyBinder,
             [Scalar 10, Scalar 14, Scalar 20, Scalar 28, Scalar 30, Scalar 42])"
    by (simp add: run_simps numeral_2_eq_2)
  note source_run = vertexVector_length_is_max_target [OF nc(1) src, of logging_statistics example_context "[]", unfolded m]
  note composite_run = vertexVector_length_is_max_target [OF nc(2) cmp, of logging_statistics example_context "[]", unfolded m]
  show ?thesis
    by (intro conjI source_run composite_run run)
qed

text \<open>
  C1. The interpolation factor of a composite-function binder is the factor of the
  interpolation contract for the fixed base 1, that is the linear factor, over the zoom
  bracket that the constructor computed from the build zoom; calls of
  \<^verbatim>\<open>populateVertexVector\<close> and \<^verbatim>\<open>upload\<close> do not change the bracket.
\<close>

theorem composite_interpolationFactor_linear:
  fixes bnd :: "('f, 'stops, 'buf) PaintPropertyBinder"
  assumes "perform_all ops context (create dims (Composite fn) zoom dflt, stats) calls
             = Inr (bnd, stats')"
  shows "interpolationFactor bnd currentZoom
           = util_interpolationFactor 1 (fst (coveringRanges fn zoom)) currentZoom"
proof -
  from perform_all_composite [OF assms [unfolded create.simps]] obtain c' where
    "bnd = CompositeBinder c'" "cmp_coveringRanges c' = coveringRanges fn zoom"
    by auto
  then show ?thesis by (simp add: Composite_interpolationFactor_def)
qed

theorem composite_interpolationFactor_linear_witness:
  "perform_all logging_statistics example_context
     (create 1 (Composite example_composite) 12 (Scalar 0), [])
     [PopulateVertexVector 1 2, Upload]
   = Inr (CompositeBinder \<lparr>cmp_function = example_composite, cmp_defaultValue = Scalar 0,
            cmp_coveringRanges = (\<lparr>range_min = 10, range_max = 14\<rparr>,
                                  \<lparr>range_min = 10, range_max = 14\<rparr>),
            cmp_vertexVector = [], cmp_vertexBuffer = Some [[10, 14], [10, 14]],
            cmp_dimensions = 1, cmp_evaluated = [1]\<rparr>,
          [Scalar 10, Scalar 14])
   \<and> interpolationFactor
        (CompositeBinder \<lparr>cmp_function = example_composite, cmp_defaultValue = Scalar 0,
            cmp_coveringRanges = (\<lparr>range_min = 10, range_max = 14\<rparr>,
                                  \<lparr>range_min = 10, range_max = 14\<rparr>),
            cmp_vertexVector = [], cmp_vertexBuffer = Some [[10, 14], [10, 14]],
            cmp_dimensions = 1, cmp_evaluated = [1]\<rparr>
          :: (nat, float, float list list) PaintPropertyBinder) 13 = 3 / 4"
proof -
  have run: "perform_all logging_statistics example_context
     (create 1 (Composite example_composite) 12 (Scalar 0), [])
     [PopulateVertexVector 1 2, Upload]
   = Inr (CompositeBinder \<lparr>cmp_function = example_composite, cmp_defaultValue = Scalar 0,
            cmp_coveringRanges = (\<lparr>range_min = 10, range_max = 14\<rparr>,
                                  \<lparr>range_min = 10, range_max = 14\<rparr>),
            cmp_vertexVector = [], cmp_vertexBuffer = Some [[10, 14], [10, 14]],
            cmp_dimensions = 1, cmp_evaluated = [1]\<rparr>,
          [Scalar 10, Scalar 14])"
    by (simp add: run_simps numeral_2_eq_2)
  show ?thesis
    using run composite_interpolationFactor_linear [OF run, of 13]
    by (simp add: util_interpolationFactor_def example_composite_def)
qed

text \<open>
  The declared base of the function is not used: for the function with base 2 over the
  stops 10 and 14 the binder returns 1/2 at zoom 12, where the contract with the
  declared base gives 1/5.
\<close>

theorem composite_interpolationFactor_ignores_declared_base:
  "interpolationFactor
     (create 1 (Composite example_composite) 12 (Scalar 0)
        :: (nat, float, float list list) PaintPropertyBinder) 12
   \<noteq> util_interpolationFactor (base example_composite)
       (fst (coveringRanges example_composite 12)) 12"
  by (simp add: Composite_interpolationFactor_def util_interpolationFactor_def
      example_composite_def)

end
